theory Spec2Isabelle
  imports Main
begin

section \<open>Data model (src/types.ts)\<close>

text \<open>
  The host-side game logic of src/App.tsx (the networked version, lines 985 to 2013) is
  embedded as pure functions on a \<open>GameState\<close> record. Numbers of the source are
  integers (\<open>int\<close>); an index into the player array is a \<open>nat\<close>. An optional
  field (\<open>price?\<close>, \<open>ownerId?: string | null\<close>) is an \<open>option\<close>; \<open>null\<close> and
  \<open>undefined\<close> are both \<open>None\<close>. Fields that the logic never reads or writes
  (names, colours, icons, \<open>isAI\<close>, \<open>isMortgaged\<close>, the payload of an action) are
  left out. \<open>winner\<close> is a reference to a player object in the source and the value
  of that player, at the time it is recorded, here; no function of the logic reads it.
  \<open>ActionType\<close>, \<open>NetworkAction\<close> and the field \<open>isHost\<close> are used by App.tsx
  but declared in a version of types.ts that is not among the sources; their shape is
  read from \<open>dispatchAction\<close> and \<open>executeGameLogic\<close>.
\<close>

datatype ColorGroup =
  BROWN | LIGHT_BLUE | PINK | ORANGE | RED | YELLOW | GREEN | DARK_BLUE
  | GROUP_STATION | GROUP_UTILITY | GROUP_NONE

datatype TileType =
  PROPERTY | START | JAIL | PARKING | GO_TO_JAIL | CHANCE | COMMUNITY_CHEST | TAX
  | STATION | UTILITY

record Tile =
  id_t :: int
  type_t :: TileType
  price :: "int option"
  rent :: "int list option"
  group :: ColorGroup
  ownerId :: "string option"
  houseCost :: "int option"
  houseCount :: "int option"

record Player =
  id_p :: string
  money :: int
  position :: int
  isInJail :: bool
  jailTurns :: int
  consecutiveDoubles :: int
  properties :: "int list"
  bankrupt :: bool

datatype GamePhase =
  LOGIN | LOBBY_ROOMS | ROOM_SETUP | ROLLING | MOVING | ACTION | SHOWING_CARD
  | END_TURN | GAME_OVER

datatype LogType = info | success | danger | warning

text \<open>
  A log entry of the source is a text built from a template with player names and amounts,
  a type, a fresh uuid and a timestamp. The model keeps which template was used and the
  type; one constructor per \<open>createLog\<close> call site of the host logic.
\<close>

datatype LogMsg =
  MsgSurrender | MsgBailNoFunds | MsgBailPaid | MsgUpgradeNoFunds | MsgUpgradeMax
  | MsgUpgraded | MsgPass | MsgBought | MsgJailDouble | MsgJailForcedBail | MsgJailFail
  | MsgSpeeding | MsgRolled | MsgPassStart | MsgArrived | MsgGoToJail | MsgRentDoubled
  | MsgUtility | MsgRent | MsgBankrupt | MsgTax | MsgCard | MsgSentToJail

record GameLog =
  message :: LogMsg
  type_l :: LogType

datatype EffectType = MONEY | MOVE_TO | MOVE_STEPS | CARD_GO_TO_JAIL

text \<open>
  \<open>descriptionHasJail\<close> stands for \<open>card.description.includes(...)\<close> with the jail
  keyword, the only use the logic makes of a card's description.
\<close>

record ChanceCard =
  id_c :: int
  descriptionHasJail :: bool
  effectType :: EffectType
  val :: int

record GameState =
  players :: "Player list"
  currentPlayerIndex :: nat
  tiles :: "Tile list"
  dice :: "int \<times> int"
  phase :: GamePhase
  logs :: "GameLog list"
  winner :: "Player option"
  currentCard :: "ChanceCard option"
  selectedTileId :: "int option"
  waitingForDoublesTurn :: bool
  currentUser :: "(string \<times> string) option"
  roomId :: "string option"
  isHost :: bool

datatype ActionType = ROLL | BUY | PASS | PAY_BAIL | UPGRADE | END_TURN_ACTION | SURRENDER

record NetworkAction =
  type_a :: ActionType
  playerId :: string

text \<open>
  What the source can do that a state cannot show: \<open>TypeError\<close> is the exception thrown
  by a property access on \<open>undefined\<close> (the state update is abandoned);
  \<open>NotAnInteger\<close> marks a run in which the source goes on with a balance that is no
  integer (\<open>NaN\<close> from an index outside the rent array, a half from \<open>Math.pow(2, -1)\<close>).
\<close>

datatype error = TypeError | NotAnInteger

section \<open>Helpers\<close>

text \<open>\<open>xs.findIndex(P)\<close>: the first index, \<open>None\<close> for the source's \<open>-1\<close>.\<close>

fun findIndex :: "('a \<Rightarrow> bool) \<Rightarrow> 'a list \<Rightarrow> nat option" where
  "findIndex P [] = None"
| "findIndex P (x # xs) =
     (if P x then Some 0 else (case findIndex P xs of None \<Rightarrow> None | Some i \<Rightarrow> Some (Suc i)))"

definition findPlayer :: "string \<Rightarrow> Player list \<Rightarrow> Player option" where
  "findPlayer pid ps = List.find (\<lambda>p. id_p p = pid) ps"

definition findPlayerIndex :: "string \<Rightarrow> Player list \<Rightarrow> nat option" where
  "findPlayerIndex pid ps = findIndex (\<lambda>p. id_p p = pid) ps"

text \<open>
  \<open>newPlayers[idx].f = v\<close> after \<open>idx = newPlayers.findIndex(..)\<close>: a write through
  index \<open>-1\<close> is a write to \<open>undefined\<close> and throws. The player objects are shared
  between the old and the new array in the source; the model rebuilds the list.
\<close>

definition updatePlayer :: "string \<Rightarrow> (Player \<Rightarrow> Player) \<Rightarrow> Player list \<Rightarrow> error + Player list" where
  "updatePlayer pid f ps =
     (case findPlayerIndex pid ps of
        None \<Rightarrow> Inl TypeError
      | Some i \<Rightarrow> Inr (ps[i := f (ps ! i)]))"

definition createLog :: "LogMsg \<Rightarrow> LogType \<Rightarrow> GameLog" where
  "createLog m t = \<lparr>message = m, type_l = t\<rparr>"

text \<open>
  \<open>logs.push(createLog(..))\<close>. The source collects the entries in an array of its own
  and stores it in the returned state at the end of \<open>executeGameLogic\<close>; the model
  appends to the state's log at once, which gives the same final log.
\<close>

definition pushLog :: "LogMsg \<Rightarrow> LogType \<Rightarrow> GameState \<Rightarrow> GameState" where
  "pushLog m t s = s\<lparr>logs := logs s @ [createLog m t]\<rparr>"

text \<open>Truthiness of an optional string and of an optional number.\<close>

definition truthyStr :: "string option \<Rightarrow> bool" where
  "truthyStr x = (case x of None \<Rightarrow> False | Some s \<Rightarrow> s \<noteq> [])"

definition truthyNum :: "int option \<Rightarrow> bool" where
  "truthyNum x = (case x of None \<Rightarrow> False | Some n \<Rightarrow> n \<noteq> 0)"

text \<open>
  The string that an owner reference is compared with: \<open>p.id === tile.ownerId\<close> is
  false for every player when the reference is \<open>null\<close>, and is only evaluated when the
  reference is truthy.
\<close>

definition orElseStr :: "string option \<Rightarrow> string" where
  "orElseStr x = (case x of None \<Rightarrow> [] | Some s \<Rightarrow> s)"

text \<open>\<open>x || d\<close> on an optional number.\<close>

definition orElse :: "int option \<Rightarrow> int \<Rightarrow> int" where
  "orElse x d = (case x of None \<Rightarrow> d | Some n \<Rightarrow> (if n = 0 then d else n))"

text \<open>\<open>tiles[pos]\<close>: \<open>undefined\<close> outside the array.\<close>

definition tileAt :: "Tile list \<Rightarrow> int \<Rightarrow> Tile option" where
  "tileAt ts pos = (if 0 \<le> pos \<and> nat pos < length ts then Some (ts ! nat pos) else None)"

text \<open>
  \<open>tiles.map(t => t.ownerId === playerId ? { ...t, ownerId: null, houseCount: 0 } : t)\<close>
\<close>

definition releaseTiles :: "string \<Rightarrow> Tile list \<Rightarrow> Tile list" where
  "releaseTiles pid ts =
     map (\<lambda>t. if ownerId t = Some pid then t\<lparr>ownerId := None, houseCount := Some 0\<rparr> else t) ts"

text \<open>\<open>activePlayers[0] || null\<close>\<close>

definition firstOrNull :: "Player list \<Rightarrow> Player option" where
  "firstOrNull ps = (case ps of [] \<Rightarrow> None | p # _ \<Rightarrow> Some p)"

definition activePlayers :: "Player list \<Rightarrow> Player list" where
  "activePlayers ps = filter (\<lambda>p. \<not> bankrupt p) ps"

text \<open>App.tsx 1564: \<open>checkOwnsGroup\<close>.\<close>

definition checkOwnsGroup :: "string option \<Rightarrow> ColorGroup \<Rightarrow> Tile list \<Rightarrow> bool" where
  "checkOwnsGroup pid g allTiles =
     (if \<not> truthyStr pid then False
      else if g = GROUP_NONE then False
      else (let groupTiles = filter (\<lambda>t. group t = g) allTiles
            in length groupTiles > 0 \<and> list_all (\<lambda>t. ownerId t = pid) groupTiles))"

section \<open>Turn rotation (App.tsx 1300: processEndTurn)\<close>

text \<open>
  The loop \<open>while (players[nextIndex].bankrupt && loopCount < players.length)\<close>; it is
  entered with \<open>nextIndex < players.length\<close> and keeps it so.
\<close>

function skipBankrupt :: "Player list \<Rightarrow> nat \<Rightarrow> nat \<Rightarrow> nat" where
  "skipBankrupt ps nextIndex loopCount =
     (if bankrupt (ps ! nextIndex) \<and> loopCount < length ps
      then skipBankrupt ps ((nextIndex + 1) mod length ps) (loopCount + 1)
      else nextIndex)"
  by pat_completeness auto
termination
  by (relation "measure (\<lambda>(ps, i, c). length ps - c)") auto

declare skipBankrupt.simps [simp del]

text \<open>
  With no player at all \<open>(i + 1) % 0\<close> is \<open>NaN\<close> and \<open>players[NaN].bankrupt\<close> throws.
\<close>

definition processEndTurn :: "GameState \<Rightarrow> error + GameState" where
  "processEndTurn state =
     (if players state = [] then Inl TypeError
      else
        (let nextIndex = skipBankrupt (players state)
                           ((currentPlayerIndex state + 1) mod length (players state)) 0;
             active = activePlayers (players state)
         in if length active \<le> 1
            then Inr (state\<lparr>winner := firstOrNull active, phase := GAME_OVER\<rparr>)
            else Inr (state\<lparr>currentPlayerIndex := nextIndex, phase := ROLLING,
                             waitingForDoublesTurn := False\<rparr>)))"

section \<open>Intent processors\<close>

text \<open>\<open>state.players[state.currentPlayerIndex].id === player.id\<close>\<close>

definition isTurnOf :: "GameState \<Rightarrow> string \<Rightarrow> error + bool" where
  "isTurnOf state pid =
     (if currentPlayerIndex state < length (players state)
      then Inr (id_p (players state ! currentPlayerIndex state) = pid)
      else Inl TypeError)"

text \<open>App.tsx 1196: \<open>processSurrender\<close>.\<close>

definition processSurrender :: "GameState \<Rightarrow> Player \<Rightarrow> error + GameState" where
  "processSurrender state0 player =
     (let state = pushLog MsgSurrender danger state0 in
      case updatePlayer (id_p player) (\<lambda>p. p\<lparr>bankrupt := True, money := 0\<rparr>) (players state) of
        Inl e \<Rightarrow> Inl e
      | Inr newPlayers \<Rightarrow>
          (let newTiles = releaseTiles (id_p player) (tiles state) in
           case isTurnOf state (id_p player) of
             Inl e \<Rightarrow> Inl e
           | Inr isTurn \<Rightarrow>
               (let nextState = state\<lparr>players := newPlayers, tiles := newTiles\<rparr> in
                if isTurn then processEndTurn nextState
                else
                  (let active = activePlayers (players nextState)
                   in if length active \<le> 1
                      then Inr (nextState\<lparr>winner := firstOrNull active, phase := GAME_OVER\<rparr>)
                      else Inr nextState))))"

text \<open>App.tsx 1226: \<open>processPayBail\<close>.\<close>

definition processPayBail :: "GameState \<Rightarrow> Player \<Rightarrow> error + GameState" where
  "processPayBail state player =
     (if money player < 50 then Inr (pushLog MsgBailNoFunds warning state)
      else
        (case updatePlayer (id_p player)
                (\<lambda>p. p\<lparr>money := money p - 50, isInJail := False, jailTurns := 0,
                        consecutiveDoubles := 0\<rparr>) (players state) of
           Inl e \<Rightarrow> Inl e
         | Inr newPlayers \<Rightarrow> Inr ((pushLog MsgBailPaid success state)\<lparr>players := newPlayers\<rparr>)))"

text \<open>
  App.tsx 1242: \<open>processUpgrade\<close>. \<open>tiles.find\<close> and \<open>tiles.findIndex\<close> by the same
  id give the same tile, so the write \<open>newTiles[tIdx] = ..\<close> cannot miss.
\<close>

definition processUpgrade :: "GameState \<Rightarrow> Player \<Rightarrow> error + GameState" where
  "processUpgrade state player =
     (case selectedTileId state of
        None \<Rightarrow> Inr state
      | Some sel \<Rightarrow>
          (case findIndex (\<lambda>t. id_t t = sel) (tiles state) of
             None \<Rightarrow> Inr state
           | Some tIdx \<Rightarrow>
               (let tile = tiles state ! tIdx in
                case houseCost tile of
                  None \<Rightarrow> Inr state
                | Some cost \<Rightarrow>
                    if cost = 0 then Inr state
                    else if money player < cost
                      then Inr (pushLog MsgUpgradeNoFunds warning state)
                    else if truthyNum (houseCount tile) \<and> orElse (houseCount tile) 0 \<ge> 5
                      then Inr (pushLog MsgUpgradeMax warning state)
                    else
                      (case updatePlayer (id_p player)
                              (\<lambda>p. p\<lparr>money := money p - cost\<rparr>) (players state) of
                         Inl e \<Rightarrow> Inl e
                       | Inr newPlayers \<Rightarrow>
                           (let newTiles = (tiles state)
                                  [tIdx := tile\<lparr>houseCount := Some (orElse (houseCount tile) 0 + 1)\<rparr>]
                            in Inr ((pushLog MsgUpgraded success state)
                                      \<lparr>players := newPlayers, tiles := newTiles\<rparr>))))))"

text \<open>App.tsx 1270: \<open>processPass\<close>.\<close>

definition processPass :: "GameState \<Rightarrow> Player \<Rightarrow> error + GameState" where
  "processPass state player =
     Inr ((pushLog MsgPass info state)
            \<lparr>phase := (if waitingForDoublesTurn state then ROLLING else END_TURN)\<rparr>)"

text \<open>
  App.tsx 1278: \<open>processBuy\<close>. \<open>tile.price\<close> on a position outside the board throws.
  Past the guard \<open>!tile.price\<close> the price is a number other than 0, which
  \<open>orElse (price tile) 0\<close> reads.
\<close>

definition processBuy :: "GameState \<Rightarrow> Player \<Rightarrow> error + GameState" where
  "processBuy state player =
     (case tileAt (tiles state) (position player) of
        None \<Rightarrow> Inl TypeError
      | Some tile \<Rightarrow>
          if \<not> truthyNum (price tile) then Inr state
          else if money player < orElse (price tile) 0 then Inr state
          else
            (case updatePlayer (id_p player)
                    (\<lambda>p. p\<lparr>money := money p - orElse (price tile) 0,
                            properties := properties p @ [id_t tile]\<rparr>) (players state) of
               Inl e \<Rightarrow> Inl e
             | Inr newPlayers \<Rightarrow>
                 (let newTiles = (tiles state)
                        [nat (position player) := tile\<lparr>ownerId := Some (id_p player)\<rparr>]
                  in Inr ((pushLog MsgBought success state)
                            \<lparr>players := newPlayers, tiles := newTiles,
                             phase := (if waitingForDoublesTurn state then ROLLING else END_TURN)\<rparr>))))"

section \<open>The turn engine\<close>

text \<open>
  \<open>CHANCE_CARDS\<close> is a constant of a file that is not among the sources, so the deck is
  a parameter; \<open>cardIndex\<close> is the random index drawn. An empty deck gives
  \<open>undefined\<close>, and reading the card's title throws.
\<close>

definition drawCard :: "ChanceCard list \<Rightarrow> nat \<Rightarrow> ChanceCard option" where
  "drawCard deck cardIndex = (if cardIndex < length deck then Some (deck ! cardIndex) else None)"

text \<open>The four assignments that put a player in jail.\<close>

definition jailed :: "Player \<Rightarrow> Player" where
  "jailed p = p\<lparr>position := 10, isInJail := True, jailTurns := 0, consecutiveDoubles := 0\<rparr>"

text \<open>The effect of a card on the player who drew it (App.tsx 1521, the \<open>switch\<close>).\<close>

definition cardSendsToJail :: "ChanceCard \<Rightarrow> bool" where
  "cardSendsToJail crd =
     (case effectType crd of
        MONEY \<Rightarrow> False
      | MOVE_TO \<Rightarrow> val crd = 10 \<and> descriptionHasJail crd
      | MOVE_STEPS \<Rightarrow> False
      | CARD_GO_TO_JAIL \<Rightarrow> True)"

definition cardEffect :: "ChanceCard \<Rightarrow> Player \<Rightarrow> Player" where
  "cardEffect crd player =
     (case effectType crd of
        MONEY \<Rightarrow> player\<lparr>money := money player + val crd\<rparr>
      | MOVE_TO \<Rightarrow>
          if val crd = 10 \<and> descriptionHasJail crd then jailed player
          else (if position player > val crd then player\<lparr>money := money player + 200\<rparr>
                else player)\<lparr>position := val crd\<rparr>
      | MOVE_STEPS \<Rightarrow>
          (let newPos = position player + val crd;
               wrapped = (newPos \<ge> 40);
               newPos1 = (if wrapped then newPos - 40 else newPos);
               newPos2 = (if newPos1 < 0 then newPos1 + 40 else newPos1)
           in (if wrapped then player\<lparr>money := money player + 200\<rparr> else player)
                \<lparr>position := newPos2\<rparr>)
      | CARD_GO_TO_JAIL \<Rightarrow> jailed player)"

text \<open>App.tsx 1511: \<open>applyChanceEffect\<close>.\<close>

definition applyChanceEffect ::
  "GameState \<Rightarrow> string \<Rightarrow> ChanceCard \<Rightarrow> bool \<Rightarrow> error + GameState" where
  "applyChanceEffect state pid crd isDouble =
     (case updatePlayer pid (cardEffect crd) (players state) of
        Inl e \<Rightarrow> Inl e
      | Inr newPlayers \<Rightarrow>
          (let st = pushLog MsgCard info state;
               toJail = cardSendsToJail crd;
               st1 = (if toJail then pushLog MsgSentToJail danger st else st);
               nextPhase = (if toJail then END_TURN else if isDouble then ROLLING else END_TURN);
               waitingForDoubles = (if toJail then False else isDouble)
           in Inr (st1\<lparr>players := newPlayers, phase := nextPhase,
                         waitingForDoublesTurn := waitingForDoubles\<rparr>)))"

text \<open>
  The rent computed in \<open>handleLanding\<close> (App.tsx 1451 to 1469) for a tile and its owner.
  \<open>tile.rent[n]\<close> outside the array is \<open>undefined\<close> and the balance becomes
  \<open>NaN\<close>; with no station counted \<open>25 * Math.pow(2, -1)\<close> is 12.5.
\<close>

definition countOwned :: "ColorGroup \<Rightarrow> string \<Rightarrow> Tile list \<Rightarrow> nat" where
  "countOwned g oid ts = length (filter (\<lambda>t. group t = g \<and> ownerId t = Some oid) ts)"

definition rentBonus :: "GameState \<Rightarrow> Tile \<Rightarrow> Player \<Rightarrow> bool" where
  "rentBonus state tile owner =
     ((houseCount tile = Some 0 \<or> houseCount tile = None)
      \<and> checkOwnsGroup (Some (id_p owner)) (group tile) (tiles state))"

definition baseRent :: "Tile \<Rightarrow> error + int" where
  "baseRent tile =
     (case rent tile of
        None \<Rightarrow> Inr 0
      | Some rs \<Rightarrow>
          (let n = orElse (houseCount tile) 0
           in if 0 \<le> n \<and> nat n < length rs then Inr (rs ! nat n) else Inl NotAnInteger))"

definition rentDue :: "GameState \<Rightarrow> Tile \<Rightarrow> Player \<Rightarrow> error + int" where
  "rentDue state tile owner =
     (if type_t tile = PROPERTY then
        (case baseRent tile of
           Inl e \<Rightarrow> Inl e
         | Inr b \<Rightarrow> if rentBonus state tile owner then Inr (b * 2) else Inr b)
      else if type_t tile = STATION then
        (let stationsOwned = countOwned GROUP_STATION (id_p owner) (tiles state)
         in if stationsOwned = 0 then Inl NotAnInteger
            else Inr (25 * 2 ^ (stationsOwned - 1)))
      else if type_t tile = UTILITY then
        (let utilitiesOwned = countOwned GROUP_UTILITY (id_p owner) (tiles state);
             diceSum = fst (dice state) + snd (dice state)
         in Inr (if utilitiesOwned = 2 then diceSum * 10 else diceSum * 4))
      else Inr 0)"

text \<open>The entries that the rent computation pushes to the log.\<close>

definition rentLogs :: "GameState \<Rightarrow> Tile \<Rightarrow> Player \<Rightarrow> GameState \<Rightarrow> GameState" where
  "rentLogs state tile owner st =
     (if type_t tile = PROPERTY then
        (if rentBonus state tile owner then pushLog MsgRentDoubled warning st else st)
      else if type_t tile = STATION then st
      else if type_t tile = UTILITY then pushLog MsgUtility info st
      else st)"

text \<open>
  The rent branch of \<open>handleLanding\<close> (App.tsx 1471 to 1491): the transfer, the
  bankruptcy test and the end-of-game test. \<open>st\<close> is the state with the log so far.
\<close>

definition payRent ::
  "GameState \<Rightarrow> string \<Rightarrow> Player \<Rightarrow> int \<Rightarrow> bool \<Rightarrow> error + GameState" where
  "payRent st pid owner r isDouble =
     (let st1 = pushLog MsgRent danger st in
      case updatePlayer pid (\<lambda>p. p\<lparr>money := money p - r\<rparr>) (players st1) of
        Inl e \<Rightarrow> Inl e
      | Inr ps1 \<Rightarrow>
          (case updatePlayer (id_p owner) (\<lambda>p. p\<lparr>money := money p + r\<rparr>) ps1 of
             Inl e \<Rightarrow> Inl e
           | Inr ps2 \<Rightarrow>
               (case findPlayerIndex pid ps2 of
                  None \<Rightarrow> Inl TypeError
                | Some pIdx \<Rightarrow>
                    if money (ps2 ! pIdx) < 0 then
                      (let newPlayers = ps2[pIdx := (ps2 ! pIdx)\<lparr>bankrupt := True\<rparr>];
                           st2 = pushLog MsgBankrupt danger st1;
                           active = activePlayers newPlayers
                       in if length active \<le> 1
                          then Inr (st2\<lparr>players := newPlayers, winner := firstOrNull active,
                                        phase := GAME_OVER\<rparr>)
                          else Inr (st2\<lparr>players := newPlayers,
                                        tiles := releaseTiles pid (tiles st2),
                                        phase := END_TURN, waitingForDoublesTurn := False\<rparr>))
                    else Inr (st1\<lparr>players := ps2,
                                  phase := (if isDouble then ROLLING else END_TURN),
                                  waitingForDoublesTurn := isDouble\<rparr>))))"

text \<open>
  App.tsx 1413: \<open>handleLanding\<close>. Reading \<open>tile.name\<close> for the log throws when the
  position is outside the board.
\<close>

definition isBuyable :: "Tile \<Rightarrow> bool" where
  "isBuyable tile = (type_t tile = PROPERTY \<or> type_t tile = STATION \<or> type_t tile = UTILITY)"

definition landingDefault :: "GameState \<Rightarrow> bool \<Rightarrow> GameState" where
  "landingDefault st isDouble =
     st\<lparr>phase := (if isDouble then ROLLING else END_TURN), waitingForDoublesTurn := isDouble\<rparr>"

text \<open>
  Step 3 of \<open>handleLanding\<close> (App.tsx 1446 to 1496), for a property, station or
  utility tile: rent to another owner who is not bankrupt, the purchase decision on a
  tile without owner, and otherwise (own tile, owner unknown or bankrupt) the fall through
  to the last return of the function.
\<close>

definition landOnOwnable :: "GameState \<Rightarrow> string \<Rightarrow> Tile \<Rightarrow> bool \<Rightarrow> error + GameState" where
  "landOnOwnable st pid tile isDouble =
     (if truthyStr (ownerId tile) \<and> ownerId tile \<noteq> Some pid then
        (case findPlayer (orElseStr (ownerId tile)) (players st) of
           None \<Rightarrow> Inr (landingDefault st isDouble)
         | Some owner \<Rightarrow>
             if bankrupt owner then Inr (landingDefault st isDouble)
             else
               (case rentDue st tile owner of
                  Inl e \<Rightarrow> Inl e
                | Inr r \<Rightarrow> payRent (rentLogs st tile owner st) pid owner r isDouble))
      else if \<not> truthyStr (ownerId tile) then
        Inr (st\<lparr>phase := ACTION, waitingForDoublesTurn := isDouble\<rparr>)
      else Inr (landingDefault st isDouble))"

definition handleLanding ::
  "ChanceCard list \<Rightarrow> nat \<Rightarrow> GameState \<Rightarrow> string \<Rightarrow> bool \<Rightarrow> error + GameState" where
  "handleLanding deck cardIndex state pid isDouble =
     (case findPlayer pid (players state) of
        None \<Rightarrow> Inr state
      | Some player \<Rightarrow>
          (case tileAt (tiles state) (position player) of
             None \<Rightarrow> Inl TypeError
           | Some tile \<Rightarrow>
               (let st = pushLog MsgArrived info state in
                if type_t tile = GO_TO_JAIL then
                  (case updatePlayer pid jailed (players st) of
                     Inl e \<Rightarrow> Inl e
                   | Inr newPlayers \<Rightarrow>
                       Inr ((pushLog MsgGoToJail danger st)
                              \<lparr>players := newPlayers, phase := END_TURN,
                               waitingForDoublesTurn := False\<rparr>))
                else if type_t tile = CHANCE \<or> type_t tile = COMMUNITY_CHEST then
                  (case drawCard deck cardIndex of
                     None \<Rightarrow> Inl TypeError
                   | Some crd \<Rightarrow>
                       applyChanceEffect (st\<lparr>currentCard := Some crd, phase := SHOWING_CARD\<rparr>)
                         pid crd isDouble)
                else if isBuyable tile then landOnOwnable st pid tile isDouble
                else if type_t tile = TAX then
                  (case updatePlayer pid (\<lambda>p. p\<lparr>money := money p - orElse (price tile) 100\<rparr>)
                          (players st) of
                     Inl e \<Rightarrow> Inl e
                   | Inr newPlayers \<Rightarrow>
                       Inr ((pushLog MsgTax danger st)
                              \<lparr>players := newPlayers,
                               phase := (if isDouble then ROLLING else END_TURN),
                               waitingForDoublesTurn := isDouble\<rparr>))
                else Inr (landingDefault st isDouble))))"

text \<open>App.tsx 1393: \<open>movePlayer\<close>.\<close>

definition moved :: "int \<Rightarrow> Player \<Rightarrow> Player" where
  "moved steps p =
     (let newPos = position p + steps
      in if newPos \<ge> 40 then p\<lparr>money := money p + 200, position := newPos - 40\<rparr>
         else if newPos < 0 then p\<lparr>position := newPos + 40\<rparr>
         else p\<lparr>position := newPos\<rparr>)"

definition passesStart :: "int \<Rightarrow> Player \<Rightarrow> bool" where
  "passesStart steps p = (position p + steps \<ge> 40)"

definition movePlayer ::
  "ChanceCard list \<Rightarrow> nat \<Rightarrow> GameState \<Rightarrow> int \<Rightarrow> string \<Rightarrow> bool \<Rightarrow> error + GameState" where
  "movePlayer deck cardIndex state steps pid isDouble =
     (case findPlayerIndex pid (players state) of
        None \<Rightarrow> Inl TypeError
      | Some idx \<Rightarrow>
          (let p = players state ! idx;
               st = (if passesStart steps p then pushLog MsgPassStart success state else state);
               newState = st\<lparr>players := (players state)[idx := moved steps p]\<rparr>
           in handleLanding deck cardIndex newState pid isDouble))"

text \<open>
  App.tsx 1322: \<open>processRoll\<close>. The two dice are \<open>Math.floor(Math.random() * 6) + 1\<close>
  in the source and parameters \<open>d1\<close>, \<open>d2\<close> here.
\<close>

definition processRoll ::
  "ChanceCard list \<Rightarrow> nat \<Rightarrow> int \<Rightarrow> int \<Rightarrow> GameState \<Rightarrow> Player \<Rightarrow> error + GameState" where
  "processRoll deck cardIndex d1 d2 state player =
     (let total = d1 + d2;
          isDouble = (d1 = d2);
          newState = state\<lparr>dice := (d1, d2), waitingForDoublesTurn := False\<rparr>
      in
      if isInJail player then
        (if isDouble then
           (case updatePlayer (id_p player)
                   (\<lambda>p. p\<lparr>isInJail := False, jailTurns := 0, consecutiveDoubles := 0\<rparr>)
                   (players newState) of
              Inl e \<Rightarrow> Inl e
            | Inr newPlayers \<Rightarrow>
                movePlayer deck cardIndex
                  ((pushLog MsgJailDouble success newState)\<lparr>players := newPlayers\<rparr>)
                  total (id_p player) False)
         else if jailTurns player \<ge> 2 then
           (case updatePlayer (id_p player)
                   (\<lambda>p. p\<lparr>money := money p - 50, isInJail := False, jailTurns := 0,
                           consecutiveDoubles := 0\<rparr>)
                   (players newState) of
              Inl e \<Rightarrow> Inl e
            | Inr newPlayers \<Rightarrow>
                movePlayer deck cardIndex
                  ((pushLog MsgJailForcedBail warning newState)\<lparr>players := newPlayers\<rparr>)
                  total (id_p player) False)
         else
           (case updatePlayer (id_p player)
                   (\<lambda>p. p\<lparr>jailTurns := jailTurns p + 1, consecutiveDoubles := 0\<rparr>)
                   (players newState) of
              Inl e \<Rightarrow> Inl e
            | Inr newPlayers \<Rightarrow>
                Inr ((pushLog MsgJailFail warning newState)
                       \<lparr>players := newPlayers, phase := END_TURN\<rparr>)))
      else
        (let nextDoublesCount = (if isDouble then consecutiveDoubles player + 1 else 0)
         in if nextDoublesCount = 3 then
              (case updatePlayer (id_p player) jailed (players newState) of
                 Inl e \<Rightarrow> Inl e
               | Inr newPlayers \<Rightarrow>
                   Inr ((pushLog MsgSpeeding danger newState)
                          \<lparr>players := newPlayers, phase := END_TURN\<rparr>))
            else
              (case updatePlayer (id_p player)
                      (\<lambda>p. p\<lparr>consecutiveDoubles := nextDoublesCount\<rparr>) (players newState) of
                 Inl e \<Rightarrow> Inl e
               | Inr newPlayers \<Rightarrow>
                   movePlayer deck cardIndex
                     ((pushLog MsgRolled info newState)\<lparr>players := newPlayers\<rparr>)
                     total (id_p player) isDouble)))"

section \<open>The dispatcher and the replica\<close>

text \<open>
  App.tsx 1149: the updater that \<open>executeGameLogic\<close> hands to \<open>setGameState\<close>,
  as a function from the previous state to the next. The broadcast of the new state has
  no effect on the host's own state. The random draws of the roll are parameters.
\<close>

definition executeGameLogic ::
  "ChanceCard list \<Rightarrow> nat \<Rightarrow> int \<Rightarrow> int \<Rightarrow> NetworkAction \<Rightarrow> GameState \<Rightarrow> error + GameState" where
  "executeGameLogic deck cardIndex d1 d2 action prevState =
     (case findPlayer (playerId action) (players prevState) of
        None \<Rightarrow> Inr prevState
      | Some player \<Rightarrow>
          (case isTurnOf prevState (id_p player) of
             Inl e \<Rightarrow> Inl e
           | Inr isTurn \<Rightarrow>
               if \<not> isTurn \<and> type_a action \<noteq> SURRENDER then Inr prevState
               else
                 (case type_a action of
                    ROLL \<Rightarrow> processRoll deck cardIndex d1 d2 prevState player
                  | BUY \<Rightarrow> processBuy prevState player
                  | PASS \<Rightarrow> processPass prevState player
                  | PAY_BAIL \<Rightarrow> processPayBail prevState player
                  | UPGRADE \<Rightarrow> processUpgrade prevState player
                  | END_TURN_ACTION \<Rightarrow> processEndTurn prevState
                  | SURRENDER \<Rightarrow> processSurrender prevState player)))"

text \<open>
  App.tsx 1075: the handler of \<open>game_state_sync\<close>. \<open>prev\<close> is the replica's state,
  \<open>syncedState\<close> the broadcast.
\<close>

definition gameStateSync :: "GameState \<Rightarrow> GameState \<Rightarrow> GameState" where
  "gameStateSync prev syncedState =
     (if \<not> isHost prev
      then syncedState\<lparr>currentUser := currentUser prev, roomId := roomId prev, isHost := False\<rparr>
      else prev)"

section \<open>Ownership consistency\<close>




section \<open>A board and players for the examples\<close>

definition plainTile :: "int \<Rightarrow> TileType \<Rightarrow> Tile" where
  "plainTile i ty =
     \<lparr>id_t = i, type_t = ty, price = None, rent = None, group = GROUP_NONE, ownerId = None,
      houseCost = None, houseCount = None\<rparr>"

definition street :: "int \<Rightarrow> ColorGroup \<Rightarrow> int \<Rightarrow> int list \<Rightarrow> string option \<Rightarrow> Tile" where
  "street i g pr rs own =
     \<lparr>id_t = i, type_t = PROPERTY, price = Some pr, rent = Some rs, group = g, ownerId = own,
      houseCost = Some 50, houseCount = Some 0\<rparr>"

text \<open>
  Forty tiles with the id of each equal to its index: two brown streets (1 and 3) and
  three light blue streets (6, 8 and 9) with the given owners, a tax tile (4), the jail
  (10) and the go-to-jail tile (30).
\<close>

definition exBoard :: "string option \<Rightarrow> string option \<Rightarrow> Tile list" where
  "exBoard brownOwner blueOwner =
     [plainTile 0 START, street 1 BROWN 60 [2, 10, 30, 90, 160, 250] brownOwner,
      plainTile 2 PARKING, street 3 BROWN 60 [4, 20, 60, 180, 320, 450] brownOwner,
      (plainTile 4 TAX)\<lparr>price := Some 200\<rparr>, plainTile 5 PARKING,
      street 6 LIGHT_BLUE 100 [6, 30, 90, 270, 400, 550] blueOwner, plainTile 7 PARKING,
      street 8 LIGHT_BLUE 100 [6, 30, 90, 270, 400, 550] None,
      street 9 LIGHT_BLUE 120 [8, 40, 100, 300, 450, 600] None,
      plainTile 10 JAIL, plainTile 11 PARKING, plainTile 12 PARKING, plainTile 13 PARKING,
      plainTile 14 PARKING, plainTile 15 PARKING, plainTile 16 PARKING, plainTile 17 PARKING,
      plainTile 18 PARKING, plainTile 19 PARKING, plainTile 20 PARKING, plainTile 21 PARKING,
      plainTile 22 PARKING, plainTile 23 PARKING, plainTile 24 PARKING, plainTile 25 PARKING,
      plainTile 26 PARKING, plainTile 27 PARKING, plainTile 28 PARKING, plainTile 29 PARKING,
      plainTile 30 GO_TO_JAIL, plainTile 31 PARKING, plainTile 32 PARKING, plainTile 33 PARKING,
      plainTile 34 PARKING, plainTile 35 PARKING, plainTile 36 PARKING, plainTile 37 PARKING,
      plainTile 38 PARKING, plainTile 39 PARKING]"

definition exPlayer :: "string \<Rightarrow> int \<Rightarrow> int \<Rightarrow> int list \<Rightarrow> Player" where
  "exPlayer pid m pos props =
     \<lparr>id_p = pid, money = m, position = pos, isInJail = False, jailTurns = 0,
      consecutiveDoubles = 0, properties = props, bankrupt = False\<rparr>"

definition exState :: "Player list \<Rightarrow> Tile list \<Rightarrow> GamePhase \<Rightarrow> GameState" where
  "exState ps ts ph =
     \<lparr>players = ps, currentPlayerIndex = 0, tiles = ts, dice = (1, 1), phase = ph, logs = [],
      winner = None, currentCard = None, selectedTileId = None, waitingForDoublesTurn = False,
      currentUser = Some (''a'', ''Ann''), roomId = Some ''room'', isHost = True\<rparr>"



text \<open>
  Player a stands on the brown street 3; player b owns both brown streets, without
  buildings.
\<close>

definition exRentState :: GameState where
  "exRentState =
     exState [exPlayer ''a'' 1500 3 [], exPlayer ''b'' 1500 12 [1, 3]]
       (exBoard (Some ''b'') None) ROLLING"

text \<open>
  Two players are left. Player a, with 5 in hand, owns the light blue street 6 and stands
  on the start tile; player b owns both brown streets.
\<close>

definition exLastRent :: GameState where
  "exLastRent =
     exState [exPlayer ''a'' 5 0 [6], exPlayer ''b'' 1500 12 [1, 3]]
       (exBoard (Some ''b'') (Some ''a'')) ROLLING"

text \<open>The same with 100 in hand, four steps before the tax tile.\<close>

definition exTaxState :: GameState where
  "exTaxState =
     exState [exPlayer ''a'' 100 0 [6], exPlayer ''b'' 1500 12 [1, 3]]
       (exBoard (Some ''b'') (Some ''a'')) ROLLING"

text \<open>Player a in jail after two failed rolls, with 20 in hand.\<close>

definition exBailState :: GameState where
  "exBailState =
     exState [(exPlayer ''a'' 20 10 [6])\<lparr>isInJail := True, jailTurns := 2\<rparr>,
              exPlayer ''b'' 1500 12 [1, 3]]
       (exBoard (Some ''b'') (Some ''a'')) ROLLING"

text \<open>Three players; it is the turn of player a.\<close>

definition exThree :: GameState where
  "exThree =
     exState [exPlayer ''a'' 1500 0 [6], exPlayer ''b'' 1500 12 [1, 3], exPlayer ''c'' 1500 20 []]
       (exBoard (Some ''b'') (Some ''a'')) ROLLING"

section \<open>Notions used to state the claims, and more states for the examples\<close>

text \<open>What a player's place on the board and jail state consist of.\<close>

definition jailView :: "Player \<Rightarrow> string \<times> int \<times> bool \<times> int \<times> int" where
  "jailView p = (id_p p, position p, isInJail p, jailTurns p, consecutiveDoubles p)"

text \<open>
  A tile on which \<open>handleLanding\<close> leaves the player where the roll has put them: not
  the go-to-jail tile and not a tile that draws a card.
\<close>

definition quietTile :: "Tile \<Rightarrow> bool" where
  "quietTile t = (type_t t \<noteq> GO_TO_JAIL \<and> type_t t \<noteq> CHANCE \<and> type_t t \<noteq> COMMUNITY_CHEST)"

text \<open>Player a has rolled two doubles in a row.\<close>

definition exSpeeding :: GameState where
  "exSpeeding =
     exState [(exPlayer ''a'' 1500 7 [6])\<lparr>consecutiveDoubles := 2\<rparr>,
              exPlayer ''b'' 1500 12 [1, 3]]
       (exBoard (Some ''b'') (Some ''a'')) ROLLING"

text \<open>Player a stands on the light blue street 8, which has no owner.\<close>

definition exBuyState :: GameState where
  "exBuyState =
     exState [exPlayer ''a'' 1500 8 [6], exPlayer ''b'' 1500 12 [1, 3]]
       (exBoard (Some ''b'') (Some ''a'')) END_TURN"



text \<open>Player a in jail after one failed roll.\<close>

definition exJailState :: GameState where
  "exJailState =
     exState [(exPlayer ''a'' 20 10 [6])\<lparr>isInJail := True, jailTurns := 1\<rparr>,
              exPlayer ''b'' 1500 12 [1, 3]]
       (exBoard (Some ''b'') (Some ''a'')) ROLLING"


section \<open>The upgrade button of a client\<close>

text \<open>App.tsx 1856: the tile that this client has selected.\<close>

definition selectedTile :: "GameState \<Rightarrow> Tile option" where
  "selectedTile s =
     (case selectedTileId s of
        None \<Rightarrow> None
      | Some sel \<Rightarrow> List.find (\<lambda>t. id_t t = sel) (tiles s))"

text \<open>App.tsx 1860: \<open>checkOwnsGroupLocal\<close>.\<close>

definition checkOwnsGroupLocal :: "GameState \<Rightarrow> ColorGroup \<Rightarrow> bool" where
  "checkOwnsGroupLocal s g =
     (case currentUser s of
        None \<Rightarrow> False
      | Some u \<Rightarrow> checkOwnsGroup (Some (fst u)) g (tiles s))"

text \<open>
  App.tsx 1857 and 1865: \<open>canUpgrade\<close>, the condition under which the client draws the
  upgrade button: the selected tile names this client's user as owner, is a street, and
  the user owns its colour group. Without a selected tile
  \<open>selectedTile?.type === TileType.PROPERTY\<close> is false, and without a user
  \<open>checkOwnsGroupLocal\<close> is false.
\<close>

definition canUpgrade :: "GameState \<Rightarrow> bool" where
  "canUpgrade s =
     (case selectedTile s of
        None \<Rightarrow> False
      | Some t \<Rightarrow>
          (case currentUser s of
             None \<Rightarrow> False
           | Some u \<Rightarrow> ownerId t = Some (fst u))
          \<and> type_t t = PROPERTY
          \<and> checkOwnsGroupLocal s (group t))"

text \<open>
  App.tsx 1951: the \<open>disabled\<close> of the upgrade button,
  \<open>!currentUser || getPlayerById(currentUser.id)!.money < (selectedTile.houseCost || 0)\<close>.
\<close>

definition upgradeDisabled :: "GameState \<Rightarrow> Tile \<Rightarrow> error + bool" where
  "upgradeDisabled s t =
     (case currentUser s of
        None \<Rightarrow> Inr True
      | Some u \<Rightarrow>
          (case findPlayer (fst u) (players s) of
             None \<Rightarrow> Inl TypeError
           | Some p \<Rightarrow> Inr (money p < orElse (houseCost t) 0)))"

text \<open>
  App.tsx 1126: the action that \<open>dispatchAction\<close> builds; \<open>onUpgrade\<close> (App.tsx 1876)
  calls it with the type alone, so the action does not say which tile the sender has
  selected. App.tsx 2004: a click on a tile selects it on this client only.
\<close>

definition dispatchAction :: "ActionType \<Rightarrow> GameState \<Rightarrow> NetworkAction option" where
  "dispatchAction ty s =
     (case currentUser s of
        None \<Rightarrow> None
      | Some u \<Rightarrow> Some \<lparr>type_a = ty, playerId = fst u\<rparr>)"

definition selectTile :: "int \<Rightarrow> GameState \<Rightarrow> GameState" where
  "selectTile tid s = s\<lparr>selectedTileId := Some tid\<rparr>"

text \<open>
  The state of a host, user b, who owns street 6 and has selected it; player a, on another
  client, owns both brown streets, and it is the turn of a. The client of a after the
  broadcast of this state, on which a then selects the brown street 1.
\<close>

definition exRemoteHost :: GameState where
  "exRemoteHost =
     (exState [exPlayer ''a'' 1500 0 [1, 3], exPlayer ''b'' 1500 12 [6]]
        (exBoard (Some ''a'') (Some ''b'')) ROLLING)
       \<lparr>currentUser := Some (''b'', ''Bob''), selectedTileId := Some 6\<rparr>"

definition exRemoteClient :: GameState where
  "exRemoteClient =
     selectTile 1
       (gameStateSync
          (exRemoteHost\<lparr>currentUser := Some (''a'', ''Ann''), isHost := False,
                         selectedTileId := None\<rparr>)
          exRemoteHost)"

section \<open>Facts about the helpers\<close>

lemma findIndex_Some: "findIndex P xs = Some i \<Longrightarrow> i < length xs \<and> P (xs ! i) \<and> (\<forall>j<i. \<not> P (xs ! j))"
proof (induction xs arbitrary: i)
  case Nil
  then show ?case by simp
next
  case (Cons x xs)
  show ?case
  proof (cases "P x")
    case True
    with Cons.prems show ?thesis by simp
  next
    case False
    with Cons.prems obtain k where k: "findIndex P xs = Some k" "i = Suc k"
      by (auto split: option.splits)
    from Cons.IH [OF k(1)] False k(2) show ?thesis
      by (auto simp: nth_Cons split: nat.splits)
  qed
qed

lemma findIndex_None: "findIndex P xs = None \<longleftrightarrow> (\<forall>x \<in> set xs. \<not> P x)"
  by (induction xs) (auto split: option.splits)

lemma findIndex_map: "findIndex P xs = findIndex (\<lambda>b. b) (map P xs)"
  by (induction xs) (auto split: option.splits)

lemma find_findIndex: "List.find P xs = (case findIndex P xs of None \<Rightarrow> None | Some i \<Rightarrow> Some (xs ! i))"
  by (induction xs) (auto split: option.splits)

lemma findPlayerIndex_cong:
  "map id_p ps' = map id_p ps \<Longrightarrow> findPlayerIndex pid ps' = findPlayerIndex pid ps"
proof -
  assume a: "map id_p ps' = map id_p ps"
  have "map (\<lambda>p. id_p p = pid) ps' = map ((\<lambda>x. x = pid) \<circ> id_p) ps'" by simp
  also have "\<dots> = map (\<lambda>x. x = pid) (map id_p ps')" by simp
  also have "\<dots> = map (\<lambda>x. x = pid) (map id_p ps)" using a by simp
  also have "\<dots> = map (\<lambda>p. id_p p = pid) ps" by simp
  finally show ?thesis
    unfolding findPlayerIndex_def
    by (metis findIndex_map)
qed

lemma findPlayer_Some:
  "findPlayer pid ps = Some p \<Longrightarrow>
     \<exists>i. findPlayerIndex pid ps = Some i \<and> i < length ps \<and> ps ! i = p \<and> id_p p = pid"
  unfolding findPlayer_def findPlayerIndex_def
  by (auto simp: find_findIndex split: option.splits dest: findIndex_Some)

lemma findPlayerIndex_Some:
  "findPlayerIndex pid ps = Some i \<Longrightarrow> i < length ps \<and> id_p (ps ! i) = pid \<and> findPlayer pid ps = Some (ps ! i)"
  unfolding findPlayer_def findPlayerIndex_def
  by (auto simp: find_findIndex split: option.splits dest: findIndex_Some)

lemma map_update_same:
  "g (f (ps ! i)) = g (ps ! i) \<Longrightarrow> map g (ps[i := f (ps ! i)]) = map g ps"
proof (cases "i < length ps")
  case True
  assume a: "g (f (ps ! i)) = g (ps ! i)"
  have "map g (ps[i := f (ps ! i)]) = (map g ps)[i := g (f (ps ! i))]"
    by (rule map_update)
  also have "\<dots> = (map g ps)[i := (map g ps) ! i]"
    using True a by simp
  also have "\<dots> = map g ps"
    by (rule list_update_id)
  finally show ?thesis .
next
  case False
  then show ?thesis by (simp add: list_update_beyond)
qed

lemma updatePlayer_Inr:
  "updatePlayer pid f ps = Inr ps' \<Longrightarrow>
     \<exists>i. findPlayerIndex pid ps = Some i \<and> i < length ps \<and> id_p (ps ! i) = pid \<and> ps' = ps[i := f (ps ! i)]"
  unfolding updatePlayer_def
  by (auto split: option.splits dest: findPlayerIndex_Some)

lemma updatePlayer_found:
  "findPlayer pid ps = Some p \<Longrightarrow>
     \<exists>i. i < length ps \<and> ps ! i = p \<and> findPlayerIndex pid ps = Some i \<and> updatePlayer pid f ps = Inr (ps[i := f p])"
  unfolding updatePlayer_def
  by (auto dest: findPlayer_Some)

lemma updatePlayer_index:
  "findPlayerIndex pid ps = Some i \<Longrightarrow> updatePlayer pid f ps = Inr (ps[i := f (ps ! i)])"
  by (simp add: updatePlayer_def)

lemma payRent_players:
  assumes i: "findPlayerIndex pid (players st) = Some i"
      and j: "findPlayerIndex (id_p owner) (players st) = Some j"
      and ne: "id_p owner \<noteq> pid"
  shows "\<exists>s'. payRent st pid owner r dbl = Inr s'
           \<and> map id_p (players s') = map id_p (players st)
           \<and> money (players s' ! i) = money (players st ! i) - r
           \<and> money (players s' ! j) = money (players st ! j) + r"
proof -
  let ?ps = "players st"
  let ?ps1 = "?ps[i := (?ps ! i)\<lparr>money := money (?ps ! i) - r\<rparr>]"
  let ?ps2 = "?ps1[j := (?ps1 ! j)\<lparr>money := money (?ps1 ! j) + r\<rparr>]"
  let ?ps3 = "?ps2[i := (?ps2 ! i)\<lparr>bankrupt := True\<rparr>]"
  from findPlayerIndex_Some [OF i] have il: "i < length ?ps" and ii: "id_p (?ps ! i) = pid" by auto
  from findPlayerIndex_Some [OF j] have jl: "j < length ?ps" and jj: "id_p (?ps ! j) = id_p owner" by auto
  from ii jj ne have ij: "i \<noteq> j" by auto
  have m1: "map id_p ?ps1 = map id_p ?ps"
    by (rule map_update_same [where f = "\<lambda>p. p\<lparr>money := money p - r\<rparr>"]) simp
  have m2: "map id_p ?ps2 = map id_p ?ps1"
    by (rule map_update_same [where f = "\<lambda>p. p\<lparr>money := money p + r\<rparr>"]) simp
  have m3: "map id_p ?ps3 = map id_p ?ps2"
    by (rule map_update_same [where f = "\<lambda>p. p\<lparr>bankrupt := True\<rparr>"]) simp
  have u1: "updatePlayer pid (\<lambda>p. p\<lparr>money := money p - r\<rparr>) (players (pushLog MsgRent danger st)) = Inr ?ps1"
    using i by (simp add: updatePlayer_def pushLog_def)
  have j1: "findPlayerIndex (id_p owner) ?ps1 = Some j"
    using j findPlayerIndex_cong [OF m1] by simp
  have u2: "updatePlayer (id_p owner) (\<lambda>p. p\<lparr>money := money p + r\<rparr>) ?ps1 = Inr ?ps2"
    using j1 by (simp add: updatePlayer_def)
  have i2: "findPlayerIndex pid ?ps2 = Some i"
    using i findPlayerIndex_cong [OF m1] findPlayerIndex_cong [OF m2] by simp
  have mi: "money (?ps2 ! i) = money (?ps ! i) - r" using il ij by simp
  have mj: "money (?ps2 ! j) = money (?ps ! j) + r" using jl ij by simp
  have mi3: "money (?ps3 ! i) = money (?ps ! i) - r" using il ij by simp
  have mj3: "money (?ps3 ! j) = money (?ps ! j) + r" using jl ij by simp
  show ?thesis
  proof (cases "money (?ps2 ! i) < 0")
    case True
    have "\<exists>s'. payRent st pid owner r dbl = Inr s' \<and> players s' = ?ps3"
      using True u2 i2 unfolding payRent_def Let_def u1
      by (simp del: list_update_overwrite nth_list_update)
    then show ?thesis using m1 m2 m3 mi3 mj3 by auto
  next
    case False
    have "\<exists>s'. payRent st pid owner r dbl = Inr s' \<and> players s' = ?ps2"
      using False u2 i2 unfolding payRent_def Let_def u1
      by (simp del: list_update_overwrite nth_list_update)
    then show ?thesis using m1 m2 mi mj by auto
  qed
qed

lemma rentBonus_pushLog [simp]: "rentBonus (pushLog m t s) tile owner = rentBonus s tile owner"
  by (simp add: rentBonus_def pushLog_def)

lemma rentDue_pushLog [simp]: "rentDue (pushLog m t s) tile owner = rentDue s tile owner"
  unfolding rentDue_def rentBonus_pushLog by (simp add: pushLog_def)

lemma players_rentLogs [simp]: "players (rentLogs s tile owner st) = players st"
  by (simp add: rentLogs_def pushLog_def)

lemma players_pushLog [simp]: "players (pushLog m t s) = players s"
  by (simp add: pushLog_def)

lemma tiles_pushLog [simp]: "tiles (pushLog m t s) = tiles s"
  by (simp add: pushLog_def)


lemma checkOwnsGroup_iff:
  assumes "oid \<noteq> []" and "tile \<in> set ts"
  shows "checkOwnsGroup (Some oid) (group tile) ts \<longleftrightarrow>
           group tile \<noteq> GROUP_NONE
           \<and> (\<forall>t\<in>set ts. group t = group tile \<longrightarrow> ownerId t = Some oid)"
proof -
  from assms(2) have "tile \<in> set (filter (\<lambda>t. group t = group tile) ts)" by simp
  then have "filter (\<lambda>t. group t = group tile) ts \<noteq> []" by (metis empty_iff empty_set)
  with assms(1) show ?thesis
    by (auto simp: checkOwnsGroup_def truthyStr_def Let_def list_all_iff)
qed

lemma tileAt_mem: "tileAt ts pos = Some tile \<Longrightarrow> tile \<in> set ts"
  by (auto simp: tileAt_def split: if_splits)

section \<open>The claims\<close>




text \<open>
  C9. A player lands on a street that another player, not bankrupt, owns; the street has
  rent tiers \<open>rs\<close> and building count \<open>n\<close> (an absent count reads as 0) inside
  the tiers. The rent is twice tier 0 when \<open>n = 0\<close> and the owner is the owner of
  every tile of the street's colour group (a street of group \<open>none\<close> has no colour
  group), and tier \<open>n\<close> in every other case; the landing takes exactly this amount
  from the payer and gives it to the owner.
\<close>

theorem rent_charged:
  assumes payer: "findPlayer pid (players s) = Some payer"
      and tile: "tileAt (tiles s) (position payer) = Some tile"
      and ty: "type_t tile = PROPERTY"
      and own: "ownerId tile = Some oid" "oid \<noteq> []" "oid \<noteq> pid"
      and owner: "findPlayer oid (players s) = Some owner" "\<not> bankrupt owner"
      and rs: "rent tile = Some rs"
      and n: "n = orElse (houseCount tile) 0" "0 \<le> n" "nat n < length rs"
      and r: "r = (if n = 0 \<and> group tile \<noteq> GROUP_NONE
                      \<and> (\<forall>t\<in>set (tiles s). group t = group tile \<longrightarrow> ownerId t = Some oid)
                   then 2 * (rs ! 0) else rs ! nat n)"
  shows "rentDue s tile owner = Inr r \<and>
         (\<exists>s' p' o'. handleLanding deck ci s pid dbl = Inr s'
            \<and> findPlayer pid (players s') = Some p' \<and> money p' = money payer - r
            \<and> findPlayer oid (players s') = Some o' \<and> money o' = money owner + r)"
proof -
  from findPlayer_Some [OF payer] obtain i where
    i: "findPlayerIndex pid (players s) = Some i" "players s ! i = payer" by auto
  from findPlayer_Some [OF owner(1)] obtain j where
    j: "findPlayerIndex oid (players s) = Some j" "players s ! j = owner" "id_p owner = oid" by auto
  have r': "r = (if n = 0 \<and> checkOwnsGroup (Some oid) (group tile) (tiles s)
                   then 2 * (rs ! 0) else rs ! nat n)"
    unfolding r checkOwnsGroup_iff [OF own(2) tileAt_mem [OF tile]] ..
  have rd: "rentDue s tile owner = Inr r"
    using ty rs n r' j(3)
    by (auto simp: rentDue_def baseRent_def rentBonus_def orElse_def split: option.splits if_splits)
  let ?st = "rentLogs (pushLog MsgArrived info s) tile owner (pushLog MsgArrived info s)"
  have hl: "handleLanding deck ci s pid dbl = payRent ?st pid owner r dbl"
    using payer tile ty own owner rd
    by (simp add: handleLanding_def landOnOwnable_def Let_def isBuyable_def truthyStr_def
                  orElseStr_def)
  have "findPlayerIndex pid (players ?st) = Some i"
       "findPlayerIndex (id_p owner) (players ?st) = Some j" "id_p owner \<noteq> pid"
    using i j own by simp_all
  from payRent_players [OF this, of r dbl] obtain s' where
    s': "payRent ?st pid owner r dbl = Inr s'" "map id_p (players s') = map id_p (players s)"
        "money (players s' ! i) = money payer - r" "money (players s' ! j) = money owner + r"
    using i j by auto
  from findPlayerIndex_cong [OF s'(2)] i j
  have "findPlayerIndex pid (players s') = Some i" "findPlayerIndex oid (players s') = Some j"
    by simp_all
  then have "findPlayer pid (players s') = Some (players s' ! i)"
            "findPlayer oid (players s') = Some (players s' ! j)"
    by (simp_all add: findPlayerIndex_Some)
  with s' hl rd show ?thesis by auto
qed

theorem rent_charged_witness:
  "rentDue exRentState (street 3 BROWN 60 [4, 20, 60, 180, 320, 450] (Some ''b''))
       (exPlayer ''b'' 1500 12 [1, 3]) = Inr 8
   \<and> (\<exists>s' p' o'. handleLanding [] 0 exRentState ''a'' False = Inr s'
          \<and> findPlayer ''a'' (players s') = Some p' \<and> money p' = 1492
          \<and> findPlayer ''b'' (players s') = Some o' \<and> money o' = 1508)"
proof -
  let ?tile = "street 3 BROWN 60 [4, 20, 60, 180, 320, 450] (Some ''b'')"
  let ?a = "exPlayer ''a'' 1500 3 []"
  let ?b = "exPlayer ''b'' 1500 12 [1, 3]"
  have h1: "findPlayer ''a'' (players exRentState) = Some ?a" by code_simp
  have h2: "tileAt (tiles exRentState) (position ?a) = Some ?tile" by code_simp
  have h3: "type_t ?tile = PROPERTY" by code_simp
  have h4: "ownerId ?tile = Some ''b''" by code_simp
  have h5: "''b'' \<noteq> []" "''b'' \<noteq> ''a''" by simp_all
  have h6: "findPlayer ''b'' (players exRentState) = Some ?b" by code_simp
  have h7: "\<not> bankrupt ?b" by code_simp
  have h8: "rent ?tile = Some [4, 20, 60, 180, 320, 450]" by code_simp
  have h9: "(0::int) = orElse (houseCount ?tile) 0" by code_simp
  have h10: "(0::int) \<le> 0" "nat 0 < length [4, 20, 60, 180, 320, 450 :: int]" by simp_all
  have h11: "(8::int) = (if (0::int) = 0 \<and> group ?tile \<noteq> GROUP_NONE
                      \<and> (\<forall>t\<in>set (tiles exRentState). group t = group ?tile \<longrightarrow> ownerId t = Some ''b'')
                   then 2 * ([4, 20, 60, 180, 320, 450] ! 0) else [4, 20, 60, 180, 320, 450] ! nat 0)"
    by code_simp
  from rent_charged [OF h1 h2 h3 h4 h5 h6 h7 h8 h9 h10 h11, of "[]" 0 False]
  show ?thesis by (simp add: exPlayer_def)
qed

text \<open>
  C1 on the code. Player a rolls 1 and 2 from the start tile and lands on street 3 of
  player b, who holds the brown group: the rent is 8 and a has 5. Player a is marked
  bankrupt, b is the winner and the phase is \<open>GAME_OVER\<close>, but the tiles are returned
  as they were: street 6 still names a as its owner. The return for the end of the game
  (App.tsx 1485 to 1487) comes before the release of the tiles (App.tsx 1488).
\<close>

theorem rent_bankruptcy_game_over_keeps_tiles:
  "(case executeGameLogic [] 0 1 2 \<lparr>type_a = ROLL, playerId = ''a''\<rparr> exLastRent of
      Inl e \<Rightarrow> False
    | Inr s' \<Rightarrow>
        map money (players s') = [- 3, 1508]
        \<and> map bankrupt (players s') = [True, False]
        \<and> phase s' = GAME_OVER
        \<and> map_option id_p (winner s') = Some ''b''
        \<and> ownerId (tiles s' ! 6) = Some ''a''
        \<and> tiles s' = tiles exLastRent)"
  by code_simp

text \<open>
  C3 on the code. A tax of 200 takes player a from 100 to -100, and the forced bail of 50
  takes a jailed player a from 20 to -30: in both runs a is not marked bankrupt, keeps
  street 6, and the game goes on with no winner.
\<close>

theorem tax_and_bail_without_bankruptcy:
  "(case executeGameLogic [] 0 1 3 \<lparr>type_a = ROLL, playerId = ''a''\<rparr> exTaxState of
      Inl e \<Rightarrow> False
    | Inr s' \<Rightarrow>
        map money (players s') = [- 100, 1500]
        \<and> map bankrupt (players s') = [False, False]
        \<and> map position (players s') = [4, 12]
        \<and> ownerId (tiles s' ! 6) = Some ''a''
        \<and> phase s' = END_TURN \<and> winner s' = None)
   \<and> (case executeGameLogic [] 0 1 2 \<lparr>type_a = ROLL, playerId = ''a''\<rparr> exBailState of
      Inl e \<Rightarrow> False
    | Inr s' \<Rightarrow>
        map money (players s') = [- 30, 1500]
        \<and> map bankrupt (players s') = [False, False]
        \<and> map isInJail (players s') = [False, False]
        \<and> map position (players s') = [13, 12]
        \<and> ownerId (tiles s' ! 6) = Some ''a''
        \<and> phase s' = END_TURN \<and> winner s' = None)"
  by code_simp

section \<open>Facts about the turn rotation\<close>

text \<open>
  The loop of \<open>processEndTurn\<close> looks at the players behind the current one in turn
  order; with a player left who is not bankrupt it stops at one.
\<close>



lemma step_back_one:
  fixes i n :: nat
  assumes "i < n"
  shows "((i + 1) mod n + n - 1) mod n = i"
proof (cases "i + 1 = n")
  case True
  then show ?thesis using assms by simp
next
  case False
  with assms have "(i + 1) mod n = i + 1" by simp
  then show ?thesis using assms by simp
qed

lemma step_back_more:
  fixes i n k :: nat
  assumes "i < n" "2 \<le> k" "k \<le> n"
  shows "((i + 1) mod n + n - k) mod n = (i + n - (k - 1)) mod n"
proof (cases "i + 1 = n")
  case True
  have l: "(i + 1) mod n = 0" by (simp only: True mod_self)
  have "i + n - (k - 1) = (n - k) + n" using assms True by arith
  then have r: "(i + n - (k - 1)) mod n = (n - k) mod n" by (simp only: mod_add_self2)
  show ?thesis by (simp only: l r add_0)
next
  case False
  with assms have l: "(i + 1) mod n = i + 1" by simp
  have "i + 1 + n - k = i + n - (k - 1)" using assms by arith
  then show ?thesis by (simp only: l)
qed

lemma every_index_behind:
  fixes i n j :: nat
  assumes "i < n" "j < n"
  shows "\<exists>k. 1 \<le> k \<and> k \<le> n \<and> (i + n - k) mod n = j"
proof (cases "j < i")
  case True
  have "i + n - (i - j) = n + j" using True assms by arith
  then have "(i + n - (i - j)) mod n = j" using assms by simp
  moreover have "1 \<le> i - j" "i - j \<le> n" using True assms by arith+
  ultimately show ?thesis by blast
next
  case False
  have "i + n - (i + n - j) = j" using False assms by arith
  then have "(i + n - (i + n - j)) mod n = j" using assms by simp
  moreover have "1 \<le> i + n - j" "i + n - j \<le> n" using False assms by arith+
  ultimately show ?thesis by blast
qed

lemma skipBankrupt_active:
  assumes "i < length ps" "c \<le> length ps"
      and "\<forall>k. 1 \<le> k \<and> k \<le> c \<longrightarrow> bankrupt (ps ! ((i + length ps - k) mod length ps))"
      and "\<exists>j<length ps. \<not> bankrupt (ps ! j)"
  shows "skipBankrupt ps i c < length ps \<and> \<not> bankrupt (ps ! skipBankrupt ps i c)"
  using assms
proof (induction ps i c rule: skipBankrupt.induct)
  case (1 ps i c)
  let ?n = "length ps"
  show ?case
  proof (cases "bankrupt (ps ! i) \<and> c < ?n")
    case True
    have "0 < ?n" using "1.prems"(1) by arith
    then have i': "(i + 1) mod ?n < ?n" by (rule mod_less_divisor)
    have c': "c + 1 \<le> ?n" using True by simp
    have prev: "\<forall>k. 1 \<le> k \<and> k \<le> c + 1 \<longrightarrow>
                  bankrupt (ps ! (((i + 1) mod ?n + ?n - k) mod ?n))"
    proof (intro allI impI)
      fix k assume k: "1 \<le> k \<and> k \<le> c + 1"
      show "bankrupt (ps ! (((i + 1) mod ?n + ?n - k) mod ?n))"
      proof (cases "k = 1")
        case True
        then show ?thesis using step_back_one [OF "1.prems"(1)] \<open>bankrupt (ps ! i) \<and> c < ?n\<close> by simp
      next
        case False
        with k c' have k2: "2 \<le> k" "k \<le> ?n" by simp_all
        have "1 \<le> k - 1 \<and> k - 1 \<le> c" using k k2 by arith
        with "1.prems"(3) have "bankrupt (ps ! ((i + ?n - (k - 1)) mod ?n))" by blast
        then show ?thesis using step_back_more [OF "1.prems"(1) k2] by simp
      qed
    qed
    from "1.IH" [OF True i' c' prev "1.prems"(4)] True show ?thesis
      by (simp add: skipBankrupt.simps [of ps i c])
  next
    case False
    show ?thesis
    proof (cases "bankrupt (ps ! i)")
      case True
      with False "1.prems"(2) have c: "c = ?n" by simp
      from "1.prems"(4) obtain j where j: "j < ?n" "\<not> bankrupt (ps ! j)" by blast
      from every_index_behind [OF "1.prems"(1) j(1)] obtain k where
        "1 \<le> k \<and> k \<le> ?n" "(i + ?n - k) mod ?n = j" by blast
      then have "bankrupt (ps ! j)" using "1.prems"(3) c by blast
      with j(2) show ?thesis by simp
    next
      case nb: False
      with False "1.prems"(1) show ?thesis
        by (simp add: skipBankrupt.simps [of ps i c])
    qed
  qed
qed

lemma processEndTurn_next:
  assumes "players s \<noteq> []"
  shows "\<exists>s'. processEndTurn s = Inr s'
           \<and> players s' = players s \<and> tiles s' = tiles s \<and> logs s' = logs s
           \<and> (if length (activePlayers (players s)) \<le> 1
               then phase s' = GAME_OVER \<and> winner s' = firstOrNull (activePlayers (players s))
               else phase s' = ROLLING \<and> currentPlayerIndex s' < length (players s')
                    \<and> \<not> bankrupt (players s' ! currentPlayerIndex s'))"
proof (cases "length (activePlayers (players s)) \<le> 1")
  case True
  then show ?thesis using assms by (simp add: processEndTurn_def Let_def)
next
  case False
  then have "activePlayers (players s) \<noteq> []" by auto
  then obtain p where "p \<in> set (players s)" "\<not> bankrupt p"
    by (auto simp: activePlayers_def filter_empty_conv)
  then have ex: "\<exists>j<length (players s). \<not> bankrupt (players s ! j)"
    by (metis in_set_conv_nth)
  have "0 < length (players s)" using assms by simp
  then have i: "(currentPlayerIndex s + 1) mod length (players s) < length (players s)"
    by (rule mod_less_divisor)
  have c0: "(0::nat) \<le> length (players s)" by simp
  have none: "\<forall>k. 1 \<le> k \<and> k \<le> (0::nat) \<longrightarrow>
                bankrupt (players s ! (((currentPlayerIndex s + 1) mod length (players s)
                                        + length (players s) - k) mod length (players s)))"
    by simp
  from skipBankrupt_active [OF i c0 none ex] False assms show ?thesis
    by (simp add: processEndTurn_def Let_def)
qed


section \<open>The claims on the dispatcher and the upgrade\<close>

lemma upgraded_tile_differs:
  assumes "tIdx < length ts"
  shows "ts[tIdx := (ts ! tIdx)\<lparr>houseCount := Some (orElse (houseCount (ts ! tIdx)) 0 + 1)\<rparr>] \<noteq> ts"
proof
  assume "ts[tIdx := (ts ! tIdx)\<lparr>houseCount := Some (orElse (houseCount (ts ! tIdx)) 0 + 1)\<rparr>] = ts"
  then have "(ts[tIdx := (ts ! tIdx)\<lparr>houseCount := Some (orElse (houseCount (ts ! tIdx)) 0 + 1)\<rparr>]) ! tIdx = ts ! tIdx"
    by simp
  with assms have "(ts ! tIdx)\<lparr>houseCount := Some (orElse (houseCount (ts ! tIdx)) 0 + 1)\<rparr> = ts ! tIdx"
    by simp
  then have "houseCount ((ts ! tIdx)\<lparr>houseCount := Some (orElse (houseCount (ts ! tIdx)) 0 + 1)\<rparr>) = houseCount (ts ! tIdx)"
    by simp
  then show False
    by (cases "houseCount (ts ! tIdx)") (auto simp: orElse_def split: if_splits)
qed

text \<open>
  What \<open>processUpgrade\<close> reads. It adds a building exactly when a tile is selected
  in the host's state, a tile with that id exists and has a building cost other than 0,
  the acting player can afford the cost, and the building count (absent reads as 0) is
  below 5; then exactly the cost is taken from the acting player and the count goes up
  by exactly one. The owner of the tile and the holder of its colour group are not read.
\<close>

lemma processUpgrade_success:
  assumes pl: "findPlayerIndex (id_p player) (players s) = Some i"
  shows "((\<exists>s'. processUpgrade s player = Inr s' \<and> tiles s' \<noteq> tiles s) \<longleftrightarrow>
            (\<exists>sel tIdx cost.
                selectedTileId s = Some sel
                \<and> findIndex (\<lambda>t. id_t t = sel) (tiles s) = Some tIdx
                \<and> houseCost (tiles s ! tIdx) = Some cost \<and> cost \<noteq> 0
                \<and> cost \<le> money player
                \<and> orElse (houseCount (tiles s ! tIdx)) 0 < 5))
       \<and> (\<forall>sel tIdx cost.
             selectedTileId s = Some sel
             \<and> findIndex (\<lambda>t. id_t t = sel) (tiles s) = Some tIdx
             \<and> houseCost (tiles s ! tIdx) = Some cost \<and> cost \<noteq> 0
             \<and> cost \<le> money player
             \<and> orElse (houseCount (tiles s ! tIdx)) 0 < 5
             \<longrightarrow> processUpgrade s player =
                   Inr ((pushLog MsgUpgraded success s)
                          \<lparr>players := (players s)
                              [i := (players s ! i)\<lparr>money := money (players s ! i) - cost\<rparr>],
                           tiles := (tiles s)
                              [tIdx := (tiles s ! tIdx)
                                 \<lparr>houseCount :=
                                    Some (orElse (houseCount (tiles s ! tIdx)) 0 + 1)\<rparr>]\<rparr>))"
proof -
  have ok: "processUpgrade s player =
              Inr ((pushLog MsgUpgraded success s)
                     \<lparr>players := (players s)
                         [i := (players s ! i)\<lparr>money := money (players s ! i) - cost\<rparr>],
                      tiles := (tiles s)
                         [tIdx := (tiles s ! tIdx)
                            \<lparr>houseCount := Some (orElse (houseCount (tiles s ! tIdx)) 0 + 1)\<rparr>]\<rparr>)"
    if "selectedTileId s = Some sel" "findIndex (\<lambda>t. id_t t = sel) (tiles s) = Some tIdx"
       "houseCost (tiles s ! tIdx) = Some cost" "cost \<noteq> 0" "cost \<le> money player"
       "orElse (houseCount (tiles s ! tIdx)) 0 < 5"
    for sel tIdx cost
    using that pl
    by (simp add: processUpgrade_def Let_def updatePlayer_def pushLog_def)
  have changed: "\<exists>s'. processUpgrade s player = Inr s' \<and> tiles s' \<noteq> tiles s"
    if "selectedTileId s = Some sel" "findIndex (\<lambda>t. id_t t = sel) (tiles s) = Some tIdx"
       "houseCost (tiles s ! tIdx) = Some cost" "cost \<noteq> 0" "cost \<le> money player"
       "orElse (houseCount (tiles s ! tIdx)) 0 < 5"
    for sel tIdx cost
  proof -
    from findIndex_Some [OF that(2)] have "tIdx < length (tiles s)" by simp
    from upgraded_tile_differs [OF this] ok [OF that] show ?thesis
      by (simp add: pushLog_def)
  qed
  have only: "\<exists>sel tIdx cost.
                selectedTileId s = Some sel
                \<and> findIndex (\<lambda>t. id_t t = sel) (tiles s) = Some tIdx
                \<and> houseCost (tiles s ! tIdx) = Some cost \<and> cost \<noteq> 0
                \<and> cost \<le> money player
                \<and> orElse (houseCount (tiles s ! tIdx)) 0 < 5"
    if "processUpgrade s player = Inr s'" "tiles s' \<noteq> tiles s" for s'
    using that
    by (auto simp: processUpgrade_def Let_def pushLog_def truthyNum_def orElse_def
             split: option.splits if_splits sum.splits)
  from ok changed only show ?thesis by blast
qed

text \<open>
  C4. The rule that a building goes on a tile of the acting player, who holds the tile's
  colour group, is checked only where the upgrade button is drawn, against the tile
  selected on the sender's client; the upgrade intent carries no tile, and the host
  builds on the tile selected in the host's own state. Player a, on a client that is not
  the host, owns both brown streets and has selected street 1: the button is drawn and
  enabled, and the intent sent is the upgrade of a. The host, user b, has selected the
  light blue street 6, which b owns and whose colour group a does not hold: the host
  takes the building cost of 50 from a and puts the building on street 6 of b, and
  street 1 stays without a building. With no tile selected on the host the same intent
  changes nothing.
\<close>

theorem upgrade_builds_on_host_selection:
  "canUpgrade exRemoteClient
   \<and> (case selectedTile exRemoteClient of
        None \<Rightarrow> False
      | Some t \<Rightarrow> id_t t = 1 \<and> ownerId t = Some ''a''
                  \<and> upgradeDisabled exRemoteClient t = Inr False)
   \<and> players exRemoteClient = players exRemoteHost
   \<and> tiles exRemoteClient = tiles exRemoteHost
   \<and> dispatchAction UPGRADE exRemoteClient = Some \<lparr>type_a = UPGRADE, playerId = ''a''\<rparr>
   \<and> (case executeGameLogic [] 0 1 1 \<lparr>type_a = UPGRADE, playerId = ''a''\<rparr> exRemoteHost of
        Inl e \<Rightarrow> False
      | Inr s' \<Rightarrow>
          ownerId (tiles exRemoteHost ! 6) = Some ''b''
          \<and> \<not> checkOwnsGroup (Some ''a'') LIGHT_BLUE (tiles exRemoteHost)
          \<and> map money (players exRemoteHost) = [1500, 1500]
          \<and> houseCount (tiles exRemoteHost ! 6) = Some 0
          \<and> houseCount (tiles exRemoteHost ! 1) = Some 0
          \<and> map money (players s') = [1450, 1500]
          \<and> houseCount (tiles s' ! 6) = Some 1
          \<and> houseCount (tiles s' ! 1) = Some 0
          \<and> ownerId (tiles s' ! 6) = Some ''b'')
   \<and> executeGameLogic [] 0 1 1 \<lparr>type_a = UPGRADE, playerId = ''a''\<rparr>
         (exRemoteHost\<lparr>selectedTileId := None\<rparr>)
       = Inr (exRemoteHost\<lparr>selectedTileId := None\<rparr>)"
  by code_simp

text \<open>
  C5, as the code has it. An intent other than a surrender from a player whose turn it is
  not returns the previous state itself: nothing is appended to the log. A surrender is
  taken from any player of the game at any time: the player is marked bankrupt with a
  balance of 0, the tiles that name the player as owner are released, and one entry is
  logged. Then, with at most one player left who is not bankrupt, the game is over;
  otherwise, if it was the player's turn, the turn passes to a player who is not
  bankrupt, and if it was not, phase, turn and winner stay as they are.
\<close>

theorem dispatcher_turn_and_surrender:
  assumes actor: "findPlayerIndex (playerId a) (players s) = Some i"
      and cur: "currentPlayerIndex s < length (players s)"
  shows "(id_p (players s ! currentPlayerIndex s) \<noteq> playerId a \<and> type_a a \<noteq> SURRENDER
            \<longrightarrow> executeGameLogic deck ci d1 d2 a s = Inr s)
       \<and> (type_a a = SURRENDER \<longrightarrow>
            (\<exists>s'. executeGameLogic deck ci d1 d2 a s = Inr s'
               \<and> players s' = (players s)[i := (players s ! i)\<lparr>bankrupt := True, money := 0\<rparr>]
               \<and> tiles s' = releaseTiles (playerId a) (tiles s)
               \<and> logs s' = logs s @ [createLog MsgSurrender danger]
               \<and> (if length (activePlayers (players s')) \<le> 1
                   then phase s' = GAME_OVER
                        \<and> winner s' = firstOrNull (activePlayers (players s'))
                   else if id_p (players s ! currentPlayerIndex s) = playerId a
                   then phase s' = ROLLING
                        \<and> currentPlayerIndex s' < length (players s')
                        \<and> \<not> bankrupt (players s' ! currentPlayerIndex s')
                   else phase s' = phase s
                        \<and> currentPlayerIndex s' = currentPlayerIndex s
                        \<and> winner s' = winner s)))"
proof -
  let ?p = "players s ! i"
  from findPlayerIndex_Some [OF actor] have
    p: "findPlayer (playerId a) (players s) = Some ?p" "id_p ?p = playerId a" "i < length (players s)"
    by auto
  have turn: "isTurnOf s (playerId a) = Inr (id_p (players s ! currentPlayerIndex s) = playerId a)"
    using cur by (simp add: isTurnOf_def)
  have wrong: "executeGameLogic deck ci d1 d2 a s = Inr s"
    if "id_p (players s ! currentPlayerIndex s) \<noteq> playerId a" "type_a a \<noteq> SURRENDER"
    using that p turn by (simp add: executeGameLogic_def)
  let ?ps = "(players s)[i := ?p\<lparr>bankrupt := True, money := 0\<rparr>]"
  let ?next = "(pushLog MsgSurrender danger s)\<lparr>players := ?ps, tiles := releaseTiles (playerId a) (tiles s)\<rparr>"
  have disp: "executeGameLogic deck ci d1 d2 a s = processSurrender s ?p"
    if "type_a a = SURRENDER"
    using that p turn by (simp add: executeGameLogic_def)
  have turn': "isTurnOf (pushLog MsgSurrender danger s) (playerId a)
                 = Inr (id_p (players s ! currentPlayerIndex s) = playerId a)"
    using cur by (simp add: isTurnOf_def pushLog_def)
  have upd: "updatePlayer (playerId a) (\<lambda>p. p\<lparr>bankrupt := True, money := 0\<rparr>)
               (players (pushLog MsgSurrender danger s)) = Inr ?ps"
    using actor by (simp add: updatePlayer_def)
  have sur: "processSurrender s ?p =
               (if id_p (players s ! currentPlayerIndex s) = playerId a then processEndTurn ?next
                else if length (activePlayers ?ps) \<le> 1
                then Inr (?next\<lparr>winner := firstOrNull (activePlayers ?ps), phase := GAME_OVER\<rparr>)
                else Inr ?next)"
    using p(2) upd turn' by (simp add: processSurrender_def Let_def)
  have ne: "players ?next \<noteq> []" using p(3) by auto
  have surrendered: "\<exists>s'. processSurrender s ?p = Inr s'
               \<and> players s' = ?ps
               \<and> tiles s' = releaseTiles (playerId a) (tiles s)
               \<and> logs s' = logs s @ [createLog MsgSurrender danger]
               \<and> (if length (activePlayers (players s')) \<le> 1
                   then phase s' = GAME_OVER
                        \<and> winner s' = firstOrNull (activePlayers (players s'))
                   else if id_p (players s ! currentPlayerIndex s) = playerId a
                   then phase s' = ROLLING
                        \<and> currentPlayerIndex s' < length (players s')
                        \<and> \<not> bankrupt (players s' ! currentPlayerIndex s')
                   else phase s' = phase s
                        \<and> currentPlayerIndex s' = currentPlayerIndex s
                        \<and> winner s' = winner s)"
  proof (cases "id_p (players s ! currentPlayerIndex s) = playerId a")
    case True
    from processEndTurn_next [OF ne] obtain s' where
      s': "processEndTurn ?next = Inr s'" "players s' = players ?next" "tiles s' = tiles ?next"
          "logs s' = logs ?next"
          "(if length (activePlayers (players ?next)) \<le> 1
               then phase s' = GAME_OVER \<and> winner s' = firstOrNull (activePlayers (players ?next))
               else phase s' = ROLLING \<and> currentPlayerIndex s' < length (players s')
                    \<and> \<not> bankrupt (players s' ! currentPlayerIndex s'))"
      by blast
    have "processSurrender s ?p = Inr s'" using sur True s'(1) by simp
    moreover have "players s' = ?ps" using s'(2) by simp
    moreover have "tiles s' = releaseTiles (playerId a) (tiles s)" using s'(3) by simp
    moreover have "logs s' = logs s @ [createLog MsgSurrender danger]"
      using s'(4) by (simp add: pushLog_def)
    ultimately show ?thesis using s'(5) True by (auto split: if_splits)
  next
    case False
    then show ?thesis using sur by (simp add: pushLog_def)
  qed
  from wrong disp surrendered show ?thesis by auto
qed

theorem dispatcher_turn_and_surrender_witness:
  "executeGameLogic [] 0 1 2 \<lparr>type_a = ROLL, playerId = ''b''\<rparr> exThree = Inr exThree
   \<and> (\<exists>s'. executeGameLogic [] 0 1 2 \<lparr>type_a = SURRENDER, playerId = ''a''\<rparr> exThree = Inr s'
          \<and> map bankrupt (players s') = [True, False, False]
          \<and> tiles s' = releaseTiles ''a'' (tiles exThree)
          \<and> phase s' = ROLLING
          \<and> \<not> bankrupt (players s' ! currentPlayerIndex s'))"
proof -
  let ?roll = "\<lparr>type_a = ROLL, playerId = ''b''\<rparr>"
  let ?sur = "\<lparr>type_a = SURRENDER, playerId = ''a''\<rparr>"
  have b: "findPlayerIndex (playerId ?roll) (players exThree) = Some 1" by code_simp
  have a: "findPlayerIndex (playerId ?sur) (players exThree) = Some 0" by code_simp
  have cur: "currentPlayerIndex exThree < length (players exThree)" by code_simp
  have wrong: "id_p (players exThree ! currentPlayerIndex exThree) \<noteq> playerId ?roll
               \<and> type_a ?roll \<noteq> SURRENDER" by code_simp
  have sur: "type_a ?sur = SURRENDER" by simp
  have act: "\<not> length (activePlayers ((players exThree)
               [0 := (players exThree ! 0)\<lparr>bankrupt := True, money := 0\<rparr>])) \<le> 1"
    by code_simp
  have turn: "id_p (players exThree ! currentPlayerIndex exThree) = playerId ?sur" by code_simp
  have bs: "map bankrupt ((players exThree)
               [0 := (players exThree ! 0)\<lparr>bankrupt := True, money := 0\<rparr>]) = [True, False, False]"
    by code_simp
  from dispatcher_turn_and_surrender [OF b cur, of "[]" 0 1 2] wrong
  have r1: "executeGameLogic [] 0 1 2 ?roll exThree = Inr exThree" by blast
  from dispatcher_turn_and_surrender [OF a cur, of "[]" 0 1 2] sur
  obtain s' where s': "executeGameLogic [] 0 1 2 ?sur exThree = Inr s'"
      "players s' = (players exThree)[0 := (players exThree ! 0)\<lparr>bankrupt := True, money := 0\<rparr>]"
      "tiles s' = releaseTiles (playerId ?sur) (tiles exThree)"
      "(if length (activePlayers (players s')) \<le> 1
                   then phase s' = GAME_OVER
                        \<and> winner s' = firstOrNull (activePlayers (players s'))
                   else if id_p (players exThree ! currentPlayerIndex exThree) = playerId ?sur
                   then phase s' = ROLLING
                        \<and> currentPlayerIndex s' < length (players s')
                        \<and> \<not> bankrupt (players s' ! currentPlayerIndex s')
                   else phase s' = phase exThree
                        \<and> currentPlayerIndex s' = currentPlayerIndex exThree
                        \<and> winner s' = winner exThree)"
    by blast
  from s'(4) act turn have "phase s' = ROLLING \<and> \<not> bankrupt (players s' ! currentPlayerIndex s')"
    unfolding s'(2) by simp
  with r1 s'(1,2,3) bs show ?thesis by auto
qed

text \<open>
  C5 as stated fails: a roll from player b during the turn of player a is rejected
  without a warning; the log is as empty as before.
\<close>

theorem dispatcher_silent_rejection_counterexample:
  "executeGameLogic [] 0 1 2 \<lparr>type_a = ROLL, playerId = ''b''\<rparr> exThree = Inr exThree
   \<and> id_p (players exThree ! currentPlayerIndex exThree) = ''a''
   \<and> logs exThree = []"
  by code_simp

section \<open>Facts about the landing and the move\<close>

lemma updatePlayer_map:
  assumes "updatePlayer pid f ps = Inr ps'" and "\<And>p. g (f p) = g p"
  shows "map g ps' = map g ps"
proof -
  from updatePlayer_Inr [OF assms(1)] obtain i where "ps' = ps[i := f (ps ! i)]" by blast
  then show ?thesis using map_update_same [of g f ps i] assms(2) by simp
qed

lemma payRent_cases:
  assumes "payRent st pid owner r dbl = Inr s'"
  shows "\<exists>ps1 ps2 pIdx.
           updatePlayer pid (\<lambda>p. p\<lparr>money := money p - r\<rparr>) (players st) = Inr ps1
         \<and> updatePlayer (id_p owner) (\<lambda>p. p\<lparr>money := money p + r\<rparr>) ps1 = Inr ps2
         \<and> findPlayerIndex pid ps2 = Some pIdx
         \<and> (players s' = ps2 \<or> players s' = ps2[pIdx := (ps2 ! pIdx)\<lparr>bankrupt := True\<rparr>])"
proof (cases "updatePlayer pid (\<lambda>p. p\<lparr>money := money p - r\<rparr>) (players st)")
  case (Inl e)
  with assms show ?thesis by (simp add: payRent_def Let_def)
next
  case u1: (Inr ps1)
  show ?thesis
  proof (cases "updatePlayer (id_p owner) (\<lambda>p. p\<lparr>money := money p + r\<rparr>) ps1")
    case (Inl e)
    with assms u1 show ?thesis by (simp add: payRent_def Let_def)
  next
    case u2: (Inr ps2)
    show ?thesis
    proof (cases "findPlayerIndex pid ps2")
      case None
      with assms u1 u2 show ?thesis by (simp add: payRent_def Let_def)
    next
      case (Some pIdx)
      with assms u1 u2
      have "players s' = ps2 \<or> players s' = ps2[pIdx := (ps2 ! pIdx)\<lparr>bankrupt := True\<rparr>]"
        by (auto simp: payRent_def Let_def split: if_splits)
      with u1 u2 Some show ?thesis by simp
    qed
  qed
qed

lemma payRent_players_map:
  assumes r: "payRent st pid owner r dbl = Inr s'"
      and m: "\<And>p x. g (p\<lparr>money := x\<rparr>) = g p"
      and b: "\<And>p. g (p\<lparr>bankrupt := True\<rparr>) = g p"
  shows "map g (players s') = map g (players st)"
proof -
  from payRent_cases [OF r] obtain ps1 ps2 pIdx where
    u1: "updatePlayer pid (\<lambda>p. p\<lparr>money := money p - r\<rparr>) (players st) = Inr ps1" and
    u2: "updatePlayer (id_p owner) (\<lambda>p. p\<lparr>money := money p + r\<rparr>) ps1 = Inr ps2" and
    ps: "players s' = ps2 \<or> players s' = ps2[pIdx := (ps2 ! pIdx)\<lparr>bankrupt := True\<rparr>]"
    by blast
  have "map g ps1 = map g (players st)" by (rule updatePlayer_map [OF u1]) (rule m)
  moreover have "map g ps2 = map g ps1" by (rule updatePlayer_map [OF u2]) (rule m)
  moreover have "map g (ps2[pIdx := (ps2 ! pIdx)\<lparr>bankrupt := True\<rparr>]) = map g ps2"
    by (rule map_update_same) (rule b)
  ultimately show ?thesis using ps by auto
qed

lemma payRent_rest:
  assumes "payRent st pid owner r dbl = Inr s'"
  shows "(tiles s' = tiles st \<or> tiles s' = releaseTiles pid (tiles st))
       \<and> dice s' = dice st \<and> length (logs st) < length (logs s')"
  using assms
  by (auto simp: payRent_def Let_def pushLog_def split: sum.splits option.splits if_splits)


lemma applyChanceEffect_rest:
  assumes "applyChanceEffect st pid c dbl = Inr s'"
  shows "tiles s' = tiles st \<and> dice s' = dice st \<and> length (logs st) < length (logs s')"
  using assms
  by (auto simp: applyChanceEffect_def Let_def pushLog_def split: sum.splits)

lemma landOnOwnable_cases:
  assumes "landOnOwnable st pid tile dbl = Inr s'"
  shows "(\<exists>owner r. payRent (rentLogs st tile owner st) pid owner r dbl = Inr s')
       \<or> s' = landingDefault st dbl
       \<or> s' = st\<lparr>phase := ACTION, waitingForDoublesTurn := dbl\<rparr>"
proof (cases "truthyStr (ownerId tile) \<and> ownerId tile \<noteq> Some pid")
  case True
  show ?thesis
  proof (cases "findPlayer (orElseStr (ownerId tile)) (players st)")
    case None
    with assms True show ?thesis by (simp add: landOnOwnable_def)
  next
    case (Some owner)
    show ?thesis
    proof (cases "bankrupt owner")
      case True
      with assms \<open>truthyStr (ownerId tile) \<and> ownerId tile \<noteq> Some pid\<close> Some show ?thesis
        by (simp add: landOnOwnable_def)
    next
      case False
      show ?thesis
      proof (cases "rentDue st tile owner")
        case (Inl e)
        with assms \<open>truthyStr (ownerId tile) \<and> ownerId tile \<noteq> Some pid\<close> Some False
        show ?thesis by (simp add: landOnOwnable_def)
      next
        case (Inr r)
        with assms \<open>truthyStr (ownerId tile) \<and> ownerId tile \<noteq> Some pid\<close> Some False
        have "payRent (rentLogs st tile owner st) pid owner r dbl = Inr s'"
          by (simp add: landOnOwnable_def)
        then show ?thesis by blast
      qed
    qed
  qed
next
  case False
  with assms show ?thesis by (auto simp: landOnOwnable_def split: if_splits)
qed

lemma handleLanding_cases [consumes 1, case_names absent jail card rent deflt action tax]:
  assumes hl: "handleLanding deck ci s pid dbl = Inr s'"
  obtains
    (absent) "findPlayer pid (players s) = None" "s' = s"
  | (jail) player tile ps where
      "findPlayer pid (players s) = Some player" "tileAt (tiles s) (position player) = Some tile"
      "type_t tile = GO_TO_JAIL"
      "updatePlayer pid jailed (players s) = Inr ps"
      "s' = (pushLog MsgGoToJail danger (pushLog MsgArrived info s))
              \<lparr>players := ps, phase := END_TURN, waitingForDoublesTurn := False\<rparr>"
  | (card) player tile c where
      "findPlayer pid (players s) = Some player" "tileAt (tiles s) (position player) = Some tile"
      "type_t tile = CHANCE \<or> type_t tile = COMMUNITY_CHEST"
      "applyChanceEffect ((pushLog MsgArrived info s)\<lparr>currentCard := Some c, phase := SHOWING_CARD\<rparr>)
         pid c dbl = Inr s'"
  | (rent) player tile owner r where
      "findPlayer pid (players s) = Some player" "tileAt (tiles s) (position player) = Some tile"
      "isBuyable tile"
      "payRent (rentLogs (pushLog MsgArrived info s) tile owner (pushLog MsgArrived info s))
         pid owner r dbl = Inr s'"
  | (deflt) player tile where
      "findPlayer pid (players s) = Some player" "tileAt (tiles s) (position player) = Some tile"
      "type_t tile \<noteq> GO_TO_JAIL" "type_t tile \<noteq> CHANCE" "type_t tile \<noteq> COMMUNITY_CHEST"
      "s' = landingDefault (pushLog MsgArrived info s) dbl"
  | (action) player tile where
      "findPlayer pid (players s) = Some player" "tileAt (tiles s) (position player) = Some tile"
      "isBuyable tile"
      "s' = (pushLog MsgArrived info s)\<lparr>phase := ACTION, waitingForDoublesTurn := dbl\<rparr>"
  | (tax) player tile ps where
      "findPlayer pid (players s) = Some player" "tileAt (tiles s) (position player) = Some tile"
      "type_t tile = TAX"
      "updatePlayer pid (\<lambda>p. p\<lparr>money := money p - orElse (price tile) 100\<rparr>) (players s) = Inr ps"
      "s' = (pushLog MsgTax danger (pushLog MsgArrived info s))
              \<lparr>players := ps, phase := (if dbl then ROLLING else END_TURN),
               waitingForDoublesTurn := dbl\<rparr>"
proof (cases "findPlayer pid (players s)")
  case None
  with hl have "s' = s" by (simp add: handleLanding_def)
  with None show ?thesis by (rule absent)
next
  case p: (Some player)
  show ?thesis
  proof (cases "tileAt (tiles s) (position player)")
    case None
    with hl p show ?thesis by (simp add: handleLanding_def)
  next
    case t: (Some tile)
    let ?st = "pushLog MsgArrived info s"
    show ?thesis
    proof (cases "type_t tile = GO_TO_JAIL")
      case True
      with hl p t obtain ps where "updatePlayer pid jailed (players s) = Inr ps"
        "s' = (pushLog MsgGoToJail danger ?st)\<lparr>players := ps, phase := END_TURN, waitingForDoublesTurn := False\<rparr>"
        by (auto simp: handleLanding_def Let_def split: sum.splits)
      with p t True show ?thesis by (rule jail)
    next
      case nj: False
      show ?thesis
      proof (cases "type_t tile = CHANCE \<or> type_t tile = COMMUNITY_CHEST")
        case True
        with hl p t nj obtain c where
          "applyChanceEffect (?st\<lparr>currentCard := Some c, phase := SHOWING_CARD\<rparr>) pid c dbl = Inr s'"
          by (auto simp: handleLanding_def Let_def split: option.splits)
        with p t True show ?thesis by (rule card)
      next
        case nc: False
        show ?thesis
        proof (cases "isBuyable tile")
          case True
          with hl p t nj nc have "landOnOwnable ?st pid tile dbl = Inr s'"
            by (simp add: handleLanding_def Let_def)
          from landOnOwnable_cases [OF this] consider
              (a) owner r where "payRent (rentLogs ?st tile owner ?st) pid owner r dbl = Inr s'"
            | (b) "s' = landingDefault ?st dbl"
            | (c) "s' = ?st\<lparr>phase := ACTION, waitingForDoublesTurn := dbl\<rparr>"
            by blast
          then show ?thesis
          proof cases
            case a
            with p t True show ?thesis by (rule rent)
          next
            case b
            with p t nj nc show ?thesis by (auto intro: deflt)
          next
            case c
            with p t True show ?thesis by (rule action)
          qed
        next
          case nb: False
          show ?thesis
          proof (cases "type_t tile = TAX")
            case True
            with hl p t nj nc nb obtain ps where
              "updatePlayer pid (\<lambda>p. p\<lparr>money := money p - orElse (price tile) 100\<rparr>) (players s) = Inr ps"
              "s' = (pushLog MsgTax danger ?st)\<lparr>players := ps, phase := (if dbl then ROLLING else END_TURN), waitingForDoublesTurn := dbl\<rparr>"
              by (auto simp: handleLanding_def Let_def split: sum.splits)
            with p t True show ?thesis by (rule tax)
          next
            case False
            with hl p t nj nc nb have "s' = landingDefault ?st dbl"
              by (simp add: handleLanding_def Let_def)
            with p t nj nc show ?thesis by (auto intro: deflt)
          qed
        qed
      qed
    qed
  qed
qed

lemma handleLanding_rest:
  assumes "handleLanding deck ci s pid dbl = Inr s'"
  shows "(tiles s' = tiles s \<or> tiles s' = releaseTiles pid (tiles s))
       \<and> dice s' = dice s \<and> length (logs s) \<le> length (logs s')"
  using assms
proof (cases rule: handleLanding_cases)
  case absent
  then show ?thesis by simp
next
  case (jail player tile ps)
  then show ?thesis by (simp add: pushLog_def)
next
  case (card player tile c)
  from applyChanceEffect_rest [OF card(4)] show ?thesis by (simp add: pushLog_def)
next
  case (rent player tile owner r)
  let ?st = "pushLog MsgArrived info s"
  have "tiles (rentLogs ?st tile owner ?st) = tiles s" "dice (rentLogs ?st tile owner ?st) = dice s"
       "length (logs s) \<le> length (logs (rentLogs ?st tile owner ?st))"
    by (simp_all add: rentLogs_def pushLog_def)
  with payRent_rest [OF rent(4)] show ?thesis by auto
next
  case (deflt player tile)
  then show ?thesis by (simp add: landingDefault_def pushLog_def)
next
  case (action player tile)
  then show ?thesis by (simp add: pushLog_def)
next
  case (tax player tile ps)
  then show ?thesis by (simp add: pushLog_def)
qed

lemma wrap40:
  fixes x :: int
  assumes "0 \<le> x" "x < 80"
  shows "x mod 40 = (if 40 \<le> x then x - 40 else x)"
proof (cases "40 \<le> x")
  case True
  have a: "x mod 40 = (x - 40) mod 40" by (simp only: minus_mod_self2)
  have "0 \<le> x - 40" "x - 40 < 40" using True assms by arith+
  then have "(x - 40) mod 40 = x - 40" by (rule mod_pos_pos_trivial)
  with a True show ?thesis by (simp only: if_True)
next
  case False
  then show ?thesis using assms by (simp add: mod_pos_pos_trivial)
qed

lemma moved_fields:
  assumes "0 \<le> position p" "position p < 40" "0 \<le> steps" "steps \<le> 40"
  shows "moved steps p =
           p\<lparr>money := money p + (if 40 \<le> position p + steps then 200 else 0),
             position := (position p + steps) mod 40\<rparr>"
proof -
  have "0 \<le> position p + steps" "position p + steps < 80" using assms by arith+
  from wrap40 [OF this]
  have w: "(position p + steps) mod 40 =
             (if 40 \<le> position p + steps then position p + steps - 40 else position p + steps)" .
  have nn: "\<not> position p + steps < 0" using assms by arith
  show ?thesis
  proof (cases "40 \<le> position p + steps")
    case True
    then show ?thesis unfolding w moved_def Let_def by simp
  next
    case False
    then show ?thesis unfolding w moved_def Let_def using nn by simp
  qed
qed

lemma movePlayer_found:
  assumes "findPlayerIndex pid (players st0) = Some i"
  shows "\<exists>st. movePlayer deck ci st0 steps pid dbl = handleLanding deck ci st pid dbl
              \<and> players st = (players st0)[i := moved steps (players st0 ! i)]
              \<and> tiles st = tiles st0 \<and> dice st = dice st0
              \<and> length (logs st0) \<le> length (logs st)"
proof (cases "passesStart steps (players st0 ! i)")
  case True
  let ?st = "(pushLog MsgPassStart success st0)
               \<lparr>players := (players st0)[i := moved steps (players st0 ! i)]\<rparr>"
  have "movePlayer deck ci st0 steps pid dbl = handleLanding deck ci ?st pid dbl"
    using assms True by (simp add: movePlayer_def Let_def)
  moreover have "players ?st = (players st0)[i := moved steps (players st0 ! i)]"
    "tiles ?st = tiles st0" "dice ?st = dice st0" "length (logs st0) \<le> length (logs ?st)"
    by (simp_all add: pushLog_def)
  ultimately show ?thesis by blast
next
  case False
  let ?st = "st0\<lparr>players := (players st0)[i := moved steps (players st0 ! i)]\<rparr>"
  have "movePlayer deck ci st0 steps pid dbl = handleLanding deck ci ?st pid dbl"
    using assms False by (simp add: movePlayer_def Let_def)
  moreover have "players ?st = (players st0)[i := moved steps (players st0 ! i)]"
    "tiles ?st = tiles st0" "dice ?st = dice st0" "length (logs st0) \<le> length (logs ?st)"
    by simp_all
  ultimately show ?thesis by blast
qed

lemma handleLanding_quiet:
  assumes hl: "handleLanding deck ci s pid dbl = Inr s'"
      and p: "findPlayer pid (players s) = Some player"
      and t: "tileAt (tiles s) (position player) = Some tile"
      and q: "quietTile tile"
  shows "map jailView (players s') = map jailView (players s)"
  using hl
proof (cases rule: handleLanding_cases)
  case absent
  then show ?thesis by simp
next
  case (jail player' tile' ps)
  with p t q show ?thesis by (simp add: quietTile_def)
next
  case (card player' tile' c)
  with p t q show ?thesis by (auto simp: quietTile_def)
next
  case (rent player' tile' owner r)
  have "map jailView (players s') =
        map jailView (players (rentLogs (pushLog MsgArrived info s) tile' owner (pushLog MsgArrived info s)))"
    by (rule payRent_players_map [OF rent(4)]) (simp_all add: jailView_def)
  then show ?thesis by simp
next
  case (deflt player' tile')
  then show ?thesis by (simp add: landingDefault_def)
next
  case (action player' tile')
  then show ?thesis by simp
next
  case (tax player' tile' ps)
  have "map jailView ps = map jailView (players s)"
    by (rule updatePlayer_map [OF tax(4)]) (simp add: jailView_def)
  with tax(5) show ?thesis by simp
qed

lemma handleLanding_quiet_player:
  assumes hl: "handleLanding deck ci s pid dbl = Inr s'"
      and i: "findPlayerIndex pid (players s) = Some i"
      and t: "tileAt (tiles s) (position (players s ! i)) = Some tile"
      and q: "quietTile tile"
  shows "\<exists>q'. findPlayer pid (players s') = Some q' \<and> jailView q' = jailView (players s ! i)"
proof -
  from findPlayerIndex_Some [OF i] have f: "findPlayer pid (players s) = Some (players s ! i)"
    and il: "i < length (players s)" by auto
  from handleLanding_quiet [OF hl f t q]
  have m: "map jailView (players s') = map jailView (players s)" .
  then have "map fst (map jailView (players s')) = map fst (map jailView (players s))"
    by simp
  then have "map id_p (players s') = map id_p (players s)"
    by (simp add: jailView_def comp_def)
  from findPlayerIndex_cong [OF this] i have i': "findPlayerIndex pid (players s') = Some i" by simp
  from m have len: "length (players s') = length (players s)" by (rule map_eq_imp_length_eq)
  have "jailView (players s' ! i) = map jailView (players s') ! i" using il len by simp
  also have "\<dots> = map jailView (players s) ! i" using m by simp
  also have "\<dots> = jailView (players s ! i)" using il by simp
  finally have "jailView (players s' ! i) = jailView (players s ! i)" .
  with findPlayerIndex_Some [OF i'] show ?thesis by auto
qed

lemma findPlayerIndex_update:
  assumes "findPlayerIndex pid ps = Some i" and "id_p q = pid"
  shows "findPlayerIndex pid (ps[i := q]) = Some i"
proof -
  from findPlayerIndex_Some [OF assms(1)] have "id_p (ps ! i) = pid" by simp
  with assms(2) have "map id_p (ps[i := (\<lambda>_. q) (ps ! i)]) = map id_p ps"
    by (intro map_update_same) simp
  from findPlayerIndex_cong [OF this] assms(1) show ?thesis by simp
qed

lemma move_after_update:
  assumes idx: "findPlayerIndex pid (players s0) = Some i"
      and id: "id_p q = pid"
      and pos: "0 \<le> position q" "position q < 40" "0 \<le> steps" "steps \<le> 40"
  shows "\<exists>st. movePlayer deck ci (s0\<lparr>players := (players s0)[i := q]\<rparr>) steps pid dbl
                = handleLanding deck ci st pid dbl
              \<and> tiles st = tiles s0 \<and> dice st = dice s0
              \<and> players st = (players s0)
                   [i := q\<lparr>money := money q + (if 40 \<le> position q + steps then 200 else 0),
                           position := (position q + steps) mod 40\<rparr>]"
proof -
  let ?s1 = "s0\<lparr>players := (players s0)[i := q]\<rparr>"
  from findPlayerIndex_Some [OF idx] have il: "i < length (players s0)" by simp
  have "findPlayerIndex pid (players ?s1) = Some i"
    using findPlayerIndex_update [OF idx id] by simp
  from movePlayer_found [OF this, of deck ci steps dbl] obtain st where
    st: "movePlayer deck ci ?s1 steps pid dbl = handleLanding deck ci st pid dbl"
        "players st = (players ?s1)[i := moved steps (players ?s1 ! i)]"
        "tiles st = tiles ?s1" "dice st = dice ?s1"
    by blast
  have "players st = (players s0)[i := moved steps q]" using st(2) il by simp
  with st moved_fields [OF pos] show ?thesis by auto
qed

lemma landing_quiet_after_move:
  assumes hl: "handleLanding deck ci st pid dbl = Inr s'"
      and idx: "findPlayerIndex pid ps = Some i"
      and st: "players st = ps[i := q]" "id_p q = pid"
      and t: "tileAt (tiles st) (position q) = Some tile" "quietTile tile"
  shows "\<exists>q'. findPlayer pid (players s') = Some q' \<and> position q' = position q
            \<and> isInJail q' = isInJail q \<and> jailTurns q' = jailTurns q
            \<and> consecutiveDoubles q' = consecutiveDoubles q"
proof -
  from findPlayerIndex_Some [OF idx] have il: "i < length ps" by simp
  have i': "findPlayerIndex pid (players st) = Some i"
    using findPlayerIndex_update [OF idx st(2)] st(1) by simp
  have q: "players st ! i = q" using st(1) il by simp
  from handleLanding_quiet_player [OF hl i'] t q
  obtain q' where "findPlayer pid (players s') = Some q'" "jailView q' = jailView q"
    by auto
  then show ?thesis by (auto simp: jailView_def)
qed

lemma movePlayer_rest:
  assumes "movePlayer deck ci st0 steps pid dbl = Inr s'"
  shows "dice s' = dice st0 \<and> length (logs st0) \<le> length (logs s')"
proof (cases "findPlayerIndex pid (players st0)")
  case None
  with assms show ?thesis by (simp add: movePlayer_def)
next
  case (Some i)
  from movePlayer_found [OF Some, of deck ci steps dbl] obtain st where
    st: "movePlayer deck ci st0 steps pid dbl = handleLanding deck ci st pid dbl"
        "dice st = dice st0" "length (logs st0) \<le> length (logs st)"
    by blast
  with assms have "handleLanding deck ci st pid dbl = Inr s'" by simp
  from handleLanding_rest [OF this] st(2,3) show ?thesis by simp
qed

lemma processRoll_rest:
  assumes "processRoll deck ci d1 d2 s player = Inr s'"
  shows "dice s' = (d1, d2) \<and> length (logs s) < length (logs s')"
proof -
  let ?ns = "s\<lparr>dice := (d1, d2), waitingForDoublesTurn := False\<rparr>"
  from assms consider
      (move) m t ps dbl where
        "movePlayer deck ci ((pushLog m t ?ns)\<lparr>players := ps\<rparr>) (d1 + d2) (id_p player) dbl = Inr s'"
    | (stay) m t ps where "s' = (pushLog m t ?ns)\<lparr>players := ps, phase := END_TURN\<rparr>"
    unfolding processRoll_def Let_def
    by (auto split: if_splits sum.splits)
  then show ?thesis
  proof cases
    case move
    from movePlayer_rest [OF this] show ?thesis by (simp add: pushLog_def)
  next
    case stay
    then show ?thesis by (simp add: pushLog_def)
  qed
qed

section \<open>The claims on the roll\<close>

text \<open>
  C7. The roll of a jailed player, standing on the board, with dice from 1 to 6; the new
  position is the old one plus the total, modulo 40, with 200 for passing the start.
  On a double the player is released with both counters at 0, moved by the total, and
  the landing is resolved at the new position (without a further roll). On a non-double
  with the jail-turn counter at 2 (or more) the same happens and 50 is deducted. On any
  other non-double the counter goes up by one, the phase is \<open>END_TURN\<close> and
  nothing else of the player changes: there is no move. Where the landing tile is
  neither the go-to-jail tile nor a card tile, the player is at the new position, free
  and with both counters at 0 after the landing.
\<close>

theorem jail_roll:
  assumes idx: "findPlayerIndex pid (players s) = Some i"
      and pl: "player = players s ! i"
      and jail: "isInJail player"
      and pos: "0 \<le> position player" "position player < 40"
      and d: "1 \<le> d1" "d1 \<le> 6" "1 \<le> d2" "d2 \<le> 6"
      and np: "newPos = (position player + (d1 + d2)) mod 40"
      and bn: "bonus = (if 40 \<le> position player + (d1 + d2) then 200 else 0)"
  shows
    "(d1 = d2 \<longrightarrow>
        (\<exists>st. processRoll deck ci d1 d2 s player = handleLanding deck ci st pid False
           \<and> tiles st = tiles s
           \<and> players st = (players s)
                [i := player\<lparr>money := money player + bonus, position := newPos,
                            isInJail := False, jailTurns := 0, consecutiveDoubles := 0\<rparr>]
           \<and> (\<forall>s' tile. handleLanding deck ci st pid False = Inr s'
                  \<and> tileAt (tiles s) newPos = Some tile \<and> quietTile tile
                \<longrightarrow> (\<exists>q. findPlayer pid (players s') = Some q \<and> position q = newPos
                         \<and> \<not> isInJail q \<and> jailTurns q = 0 \<and> consecutiveDoubles q = 0))))
   \<and> (d1 \<noteq> d2 \<and> 2 \<le> jailTurns player \<longrightarrow>
        (\<exists>st. processRoll deck ci d1 d2 s player = handleLanding deck ci st pid False
           \<and> tiles st = tiles s
           \<and> players st = (players s)
                [i := player\<lparr>money := money player - 50 + bonus, position := newPos,
                            isInJail := False, jailTurns := 0, consecutiveDoubles := 0\<rparr>]
           \<and> (\<forall>s' tile. handleLanding deck ci st pid False = Inr s'
                  \<and> tileAt (tiles s) newPos = Some tile \<and> quietTile tile
                \<longrightarrow> (\<exists>q. findPlayer pid (players s') = Some q \<and> position q = newPos
                         \<and> \<not> isInJail q \<and> jailTurns q = 0 \<and> consecutiveDoubles q = 0))))
   \<and> (d1 \<noteq> d2 \<and> jailTurns player < 2 \<longrightarrow>
        processRoll deck ci d1 d2 s player =
          Inr ((pushLog MsgJailFail warning s)
                 \<lparr>dice := (d1, d2), waitingForDoublesTurn := False,
                  players := (players s)
                    [i := player\<lparr>jailTurns := jailTurns player + 1, consecutiveDoubles := 0\<rparr>],
                  phase := END_TURN\<rparr>))"
proof -
  from findPlayerIndex_Some [OF idx] pl have id: "id_p player = pid" by simp
  let ?ns = "s\<lparr>dice := (d1, d2), waitingForDoublesTurn := False\<rparr>"
  have steps: "0 \<le> d1 + d2" "d1 + d2 \<le> 40" using d by arith+
  have landed: "\<exists>st. movePlayer deck ci (s0\<lparr>players := (players s)[i := q]\<rparr>) (d1 + d2) pid False
                       = handleLanding deck ci st pid False
           \<and> tiles st = tiles s
           \<and> players st = (players s)[i := q\<lparr>money := money q + bonus, position := newPos\<rparr>]
           \<and> (\<forall>s' tile. handleLanding deck ci st pid False = Inr s'
                  \<and> tileAt (tiles s) newPos = Some tile \<and> quietTile tile
                \<longrightarrow> (\<exists>q'. findPlayer pid (players s') = Some q' \<and> position q' = newPos
                         \<and> isInJail q' = isInJail q \<and> jailTurns q' = jailTurns q
                         \<and> consecutiveDoubles q' = consecutiveDoubles q))"
    if q: "id_p q = pid" "position q = position player" and s0: "players s0 = players s" "tiles s0 = tiles s"
    for s0 q
  proof -
    have idx0: "findPlayerIndex pid (players s0) = Some i" using idx s0 by simp
    have posq: "0 \<le> position q" "position q < 40" using pos q by simp_all
    from move_after_update [OF idx0 q(1) posq steps, of deck ci False] obtain st where
      st: "movePlayer deck ci (s0\<lparr>players := (players s0)[i := q]\<rparr>) (d1 + d2) pid False
             = handleLanding deck ci st pid False"
          "tiles st = tiles s0"
          "players st = (players s0)
             [i := q\<lparr>money := money q + (if 40 \<le> position q + (d1 + d2) then 200 else 0),
                     position := (position q + (d1 + d2)) mod 40\<rparr>]"
      by blast
    let ?q = "q\<lparr>money := money q + bonus, position := newPos\<rparr>"
    have pst: "players st = (players s)[i := ?q]" using st(3) s0 q np bn by simp
    have "\<exists>q'. findPlayer pid (players s') = Some q' \<and> position q' = newPos
                         \<and> isInJail q' = isInJail q \<and> jailTurns q' = jailTurns q
                         \<and> consecutiveDoubles q' = consecutiveDoubles q"
      if "handleLanding deck ci st pid False = Inr s'" "tileAt (tiles s) newPos = Some tile"
         "quietTile tile" for s' tile
    proof -
      have "tileAt (tiles st) (position ?q) = Some tile" using that(2) st(2) s0 by simp
      from landing_quiet_after_move [OF that(1) idx pst _ this that(3)] q show ?thesis by simp
    qed
    with st(1,2) pst s0 show ?thesis by auto
  qed
  have a: "\<exists>st. processRoll deck ci d1 d2 s player = handleLanding deck ci st pid False
           \<and> tiles st = tiles s
           \<and> players st = (players s)
                [i := player\<lparr>money := money player + bonus, position := newPos,
                            isInJail := False, jailTurns := 0, consecutiveDoubles := 0\<rparr>]
           \<and> (\<forall>s' tile. handleLanding deck ci st pid False = Inr s'
                  \<and> tileAt (tiles s) newPos = Some tile \<and> quietTile tile
                \<longrightarrow> (\<exists>q. findPlayer pid (players s') = Some q \<and> position q = newPos
                         \<and> \<not> isInJail q \<and> jailTurns q = 0 \<and> consecutiveDoubles q = 0))"
    if "d1 = d2"
  proof -
    let ?q = "player\<lparr>isInJail := False, jailTurns := 0, consecutiveDoubles := 0\<rparr>"
    let ?s0 = "pushLog MsgJailDouble success ?ns"
    have pr: "processRoll deck ci d1 d2 s player =
            movePlayer deck ci (?s0\<lparr>players := (players s)[i := ?q]\<rparr>) (d1 + d2) pid False"
      using that jail idx id pl by (simp add: processRoll_def Let_def updatePlayer_def)
    have eq: "?q\<lparr>money := money ?q + bonus, position := newPos\<rparr> =
                   player\<lparr>money := money player + bonus, position := newPos,
                            isInJail := False, jailTurns := 0, consecutiveDoubles := 0\<rparr>"
      by (cases player) simp
    have "id_p ?q = pid" "position ?q = position player" "players ?s0 = players s"
         "tiles ?s0 = tiles s"
      using id by (simp_all add: pushLog_def)
    from landed [OF this] obtain st where
      st: "movePlayer deck ci (?s0\<lparr>players := (players s)[i := ?q]\<rparr>) (d1 + d2) pid False
                       = handleLanding deck ci st pid False"
          "tiles st = tiles s"
          "players st = (players s)[i := ?q\<lparr>money := money ?q + bonus, position := newPos\<rparr>]"
          "\<forall>s' tile. handleLanding deck ci st pid False = Inr s'
                  \<and> tileAt (tiles s) newPos = Some tile \<and> quietTile tile
                \<longrightarrow> (\<exists>q'. findPlayer pid (players s') = Some q' \<and> position q' = newPos
                         \<and> isInJail q' = isInJail ?q \<and> jailTurns q' = jailTurns ?q
                         \<and> consecutiveDoubles q' = consecutiveDoubles ?q)"
      by blast
    from st(4) have "\<forall>s' tile. handleLanding deck ci st pid False = Inr s'
                  \<and> tileAt (tiles s) newPos = Some tile \<and> quietTile tile
                \<longrightarrow> (\<exists>q. findPlayer pid (players s') = Some q \<and> position q = newPos
                         \<and> \<not> isInJail q \<and> jailTurns q = 0 \<and> consecutiveDoubles q = 0)"
      by simp
    moreover have "processRoll deck ci d1 d2 s player = handleLanding deck ci st pid False"
      using pr st(1) by (rule trans)
    moreover note st(2) st(3) [unfolded eq]
    ultimately show ?thesis by (intro exI [of _ st] conjI)
  qed
  have b: "\<exists>st. processRoll deck ci d1 d2 s player = handleLanding deck ci st pid False
           \<and> tiles st = tiles s
           \<and> players st = (players s)
                [i := player\<lparr>money := money player - 50 + bonus, position := newPos,
                            isInJail := False, jailTurns := 0, consecutiveDoubles := 0\<rparr>]
           \<and> (\<forall>s' tile. handleLanding deck ci st pid False = Inr s'
                  \<and> tileAt (tiles s) newPos = Some tile \<and> quietTile tile
                \<longrightarrow> (\<exists>q. findPlayer pid (players s') = Some q \<and> position q = newPos
                         \<and> \<not> isInJail q \<and> jailTurns q = 0 \<and> consecutiveDoubles q = 0))"
    if "d1 \<noteq> d2" "2 \<le> jailTurns player"
  proof -
    let ?q = "player\<lparr>money := money player - 50, isInJail := False, jailTurns := 0,
                      consecutiveDoubles := 0\<rparr>"
    let ?s0 = "pushLog MsgJailForcedBail warning ?ns"
    have pr: "processRoll deck ci d1 d2 s player =
            movePlayer deck ci (?s0\<lparr>players := (players s)[i := ?q]\<rparr>) (d1 + d2) pid False"
      using that jail idx id pl by (simp add: processRoll_def Let_def updatePlayer_def)
    have eq: "?q\<lparr>money := money ?q + bonus, position := newPos\<rparr> =
                   player\<lparr>money := money player - 50 + bonus, position := newPos,
                            isInJail := False, jailTurns := 0, consecutiveDoubles := 0\<rparr>"
      by (cases player) simp
    have "id_p ?q = pid" "position ?q = position player" "players ?s0 = players s"
         "tiles ?s0 = tiles s"
      using id by (simp_all add: pushLog_def)
    from landed [OF this] obtain st where
      st: "movePlayer deck ci (?s0\<lparr>players := (players s)[i := ?q]\<rparr>) (d1 + d2) pid False
                       = handleLanding deck ci st pid False"
          "tiles st = tiles s"
          "players st = (players s)[i := ?q\<lparr>money := money ?q + bonus, position := newPos\<rparr>]"
          "\<forall>s' tile. handleLanding deck ci st pid False = Inr s'
                  \<and> tileAt (tiles s) newPos = Some tile \<and> quietTile tile
                \<longrightarrow> (\<exists>q'. findPlayer pid (players s') = Some q' \<and> position q' = newPos
                         \<and> isInJail q' = isInJail ?q \<and> jailTurns q' = jailTurns ?q
                         \<and> consecutiveDoubles q' = consecutiveDoubles ?q)"
      by blast
    from st(4) have "\<forall>s' tile. handleLanding deck ci st pid False = Inr s'
                  \<and> tileAt (tiles s) newPos = Some tile \<and> quietTile tile
                \<longrightarrow> (\<exists>q. findPlayer pid (players s') = Some q \<and> position q = newPos
                         \<and> \<not> isInJail q \<and> jailTurns q = 0 \<and> consecutiveDoubles q = 0)"
      by simp
    moreover have "processRoll deck ci d1 d2 s player = handleLanding deck ci st pid False"
      using pr st(1) by (rule trans)
    moreover note st(2) st(3) [unfolded eq]
    ultimately show ?thesis by (intro exI [of _ st] conjI)
  qed
  have c: "processRoll deck ci d1 d2 s player =
          Inr ((pushLog MsgJailFail warning s)
                 \<lparr>dice := (d1, d2), waitingForDoublesTurn := False,
                  players := (players s)
                    [i := player\<lparr>jailTurns := jailTurns player + 1, consecutiveDoubles := 0\<rparr>],
                  phase := END_TURN\<rparr>)"
    if "d1 \<noteq> d2" "jailTurns player < 2"
    using that jail idx id pl by (simp add: processRoll_def Let_def updatePlayer_def pushLog_def)
  from a b c show ?thesis by blast
qed

theorem jail_roll_witness:
  "(\<exists>s'. processRoll [] 0 2 2 exJailState (players exJailState ! 0) = Inr s'
      \<and> (\<exists>q. findPlayer ''a'' (players s') = Some q \<and> position q = 14
              \<and> \<not> isInJail q \<and> jailTurns q = 0 \<and> consecutiveDoubles q = 0))
   \<and> (\<exists>s'. processRoll [] 0 1 2 exBailState (players exBailState ! 0) = Inr s'
      \<and> (\<exists>q. findPlayer ''a'' (players s') = Some q \<and> position q = 13
              \<and> \<not> isInJail q \<and> jailTurns q = 0 \<and> consecutiveDoubles q = 0))
   \<and> processRoll [] 0 1 2 exJailState (players exJailState ! 0) =
        Inr ((pushLog MsgJailFail warning exJailState)
               \<lparr>dice := (1, 2), waitingForDoublesTurn := False,
                players := (players exJailState)
                  [0 := (players exJailState ! 0)
                     \<lparr>jailTurns := jailTurns (players exJailState ! 0) + 1,
                      consecutiveDoubles := 0\<rparr>],
                phase := END_TURN\<rparr>)"
proof -
  let ?p = "players exBailState ! 0" and ?j = "players exJailState ! 0"
  have idx: "findPlayerIndex ''a'' (players exBailState) = Some 0" by code_simp
  have jdx: "findPlayerIndex ''a'' (players exJailState) = Some 0" by code_simp
  have jail: "isInJail ?p" "isInJail ?j" by code_simp+
  have pos: "0 \<le> position ?p" "position ?p < 40" by code_simp+
  have posj: "0 \<le> position ?j" "position ?j < 40" by code_simp+
  have d12: "(1::int) \<le> 1" "(1::int) \<le> 6" "(1::int) \<le> 2" "(2::int) \<le> 6" by simp_all
  have d22: "(1::int) \<le> 2" "(2::int) \<le> 6" "(1::int) \<le> 2" "(2::int) \<le> 6" by simp_all
  have np: "(13::int) = (position ?p + (1 + 2)) mod 40" by code_simp
  have bn: "(0::int) = (if 40 \<le> position ?p + (1 + 2) then 200 else 0)" by code_simp
  have npj: "(13::int) = (position ?j + (1 + 2)) mod 40" by code_simp
  have bnj: "(0::int) = (if 40 \<le> position ?j + (1 + 2) then 200 else 0)" by code_simp
  have np22: "(14::int) = (position ?j + (2 + 2)) mod 40" by code_simp
  have bn22: "(0::int) = (if 40 \<le> position ?j + (2 + 2) then 200 else 0)" by code_simp
  have forced: "(1::int) \<noteq> 2 \<and> 2 \<le> jailTurns ?p" by code_simp
  have failed: "(1::int) \<noteq> 2 \<and> jailTurns ?j < 2" by code_simp
  have tile: "tileAt (tiles exBailState) 13 = Some (plainTile 13 PARKING)
              \<and> quietTile (plainTile 13 PARKING)" by code_simp
  have tile14: "tileAt (tiles exJailState) 14 = Some (plainTile 14 PARKING)
              \<and> quietTile (plainTile 14 PARKING)" by code_simp
  have "(case processRoll [] 0 1 2 exBailState ?p of Inl e \<Rightarrow> False | Inr s' \<Rightarrow> True)"
    by code_simp
  then obtain s' where s': "processRoll [] 0 1 2 exBailState ?p = Inr s'"
    by (cases "processRoll [] 0 1 2 exBailState ?p") auto
  have "(case processRoll [] 0 2 2 exJailState ?j of Inl e \<Rightarrow> False | Inr s' \<Rightarrow> True)"
    by code_simp
  then obtain s2 where s2: "processRoll [] 0 2 2 exJailState ?j = Inr s2"
    by (cases "processRoll [] 0 2 2 exJailState ?j") auto
  from jail_roll [OF idx refl jail(1) pos d12 np bn, of "[]" 0] forced
  obtain st where st: "processRoll [] 0 1 2 exBailState ?p = handleLanding [] 0 st ''a'' False"
     "\<forall>s' tile. handleLanding [] 0 st ''a'' False = Inr s'
                  \<and> tileAt (tiles exBailState) 13 = Some tile \<and> quietTile tile
                \<longrightarrow> (\<exists>q. findPlayer ''a'' (players s') = Some q \<and> position q = 13
                         \<and> \<not> isInJail q \<and> jailTurns q = 0 \<and> consecutiveDoubles q = 0)"
    by blast
  from st(1) s' have "handleLanding [] 0 st ''a'' False = Inr s'" by simp
  with st(2) tile have bail: "\<exists>q. findPlayer ''a'' (players s') = Some q \<and> position q = 13
                         \<and> \<not> isInJail q \<and> jailTurns q = 0 \<and> consecutiveDoubles q = 0"
    by blast
  have "(2::int) = 2" by simp
  with jail_roll [OF jdx refl jail(2) posj d22 np22 bn22, of "[]" 0]
  obtain st2 where st2: "processRoll [] 0 2 2 exJailState ?j = handleLanding [] 0 st2 ''a'' False"
     "\<forall>s' tile. handleLanding [] 0 st2 ''a'' False = Inr s'
                  \<and> tileAt (tiles exJailState) 14 = Some tile \<and> quietTile tile
                \<longrightarrow> (\<exists>q. findPlayer ''a'' (players s') = Some q \<and> position q = 14
                         \<and> \<not> isInJail q \<and> jailTurns q = 0 \<and> consecutiveDoubles q = 0)"
    by blast
  from st2(1) s2 have "handleLanding [] 0 st2 ''a'' False = Inr s2" by simp
  with st2(2) tile14 have dbl: "\<exists>q. findPlayer ''a'' (players s2) = Some q \<and> position q = 14
                         \<and> \<not> isInJail q \<and> jailTurns q = 0 \<and> consecutiveDoubles q = 0"
    by blast
  from jail_roll [OF jdx refl jail(2) posj d12 npj bnj, of "[]" 0] failed
  have fail: "processRoll [] 0 1 2 exJailState ?j =
        Inr ((pushLog MsgJailFail warning exJailState)
               \<lparr>dice := (1, 2), waitingForDoublesTurn := False,
                players := (players exJailState)
                  [0 := ?j\<lparr>jailTurns := jailTurns ?j + 1, consecutiveDoubles := 0\<rparr>],
                phase := END_TURN\<rparr>)"
    by blast
  from s' bail s2 dbl fail show ?thesis by blast
qed

text \<open>
  C8. The roll of a free player. The counter of consecutive doubles becomes the old one
  plus 1 on a double and 0 on any other roll. When that value is 3, which is exactly
  when the roll is a double and the counter was 2, the player is put on tile 10 and
  jailed with both counters at 0, the phase is \<open>END_TURN\<close>, and nothing else
  changes: no move, no landing. Otherwise the counter is stored, the player moves by the
  total and the landing is resolved; where the landing tile is neither the go-to-jail
  tile nor a card tile, the player is free at the new position with the new counter.
\<close>

theorem free_roll:
  assumes idx: "findPlayerIndex pid (players s) = Some i"
      and pl: "player = players s ! i"
      and free: "\<not> isInJail player"
      and pos: "0 \<le> position player" "position player < 40"
      and d: "1 \<le> d1" "d1 \<le> 6" "1 \<le> d2" "d2 \<le> 6"
      and np: "newPos = (position player + (d1 + d2)) mod 40"
      and bn: "bonus = (if 40 \<le> position player + (d1 + d2) then 200 else 0)"
      and nx: "nextCount = (if d1 = d2 then consecutiveDoubles player + 1 else 0)"
  shows
    "(nextCount = 3 \<longleftrightarrow> d1 = d2 \<and> consecutiveDoubles player = 2)
   \<and> (nextCount = 3 \<longrightarrow>
        processRoll deck ci d1 d2 s player =
          Inr ((pushLog MsgSpeeding danger s)
                 \<lparr>dice := (d1, d2), waitingForDoublesTurn := False,
                  players := (players s)
                    [i := player\<lparr>position := 10, isInJail := True, jailTurns := 0,
                                consecutiveDoubles := 0\<rparr>],
                  phase := END_TURN\<rparr>))
   \<and> (nextCount \<noteq> 3 \<longrightarrow>
        (\<exists>st. processRoll deck ci d1 d2 s player = handleLanding deck ci st pid (d1 = d2)
           \<and> tiles st = tiles s
           \<and> players st = (players s)
                [i := player\<lparr>money := money player + bonus, position := newPos,
                            consecutiveDoubles := nextCount\<rparr>]
           \<and> (\<forall>s' tile. handleLanding deck ci st pid (d1 = d2) = Inr s'
                  \<and> tileAt (tiles s) newPos = Some tile \<and> quietTile tile
                \<longrightarrow> (\<exists>q. findPlayer pid (players s') = Some q \<and> position q = newPos
                         \<and> \<not> isInJail q \<and> consecutiveDoubles q = nextCount))))"
proof -
  from findPlayerIndex_Some [OF idx] pl have id: "id_p player = pid" by simp
  let ?ns = "s\<lparr>dice := (d1, d2), waitingForDoublesTurn := False\<rparr>"
  have steps: "0 \<le> d1 + d2" "d1 + d2 \<le> 40" using d by arith+
  have iff: "nextCount = 3 \<longleftrightarrow> d1 = d2 \<and> consecutiveDoubles player = 2"
    using nx by auto
  have speeding: "processRoll deck ci d1 d2 s player =
          Inr ((pushLog MsgSpeeding danger s)
                 \<lparr>dice := (d1, d2), waitingForDoublesTurn := False,
                  players := (players s)
                    [i := player\<lparr>position := 10, isInJail := True, jailTurns := 0,
                                consecutiveDoubles := 0\<rparr>],
                  phase := END_TURN\<rparr>)"
    if "nextCount = 3"
  proof -
    from that iff have "d1 = d2" "consecutiveDoubles player = 2" by simp_all
    with free idx id pl show ?thesis
      by (simp add: processRoll_def Let_def updatePlayer_def pushLog_def jailed_def)
  qed
  have moving: "\<exists>st. processRoll deck ci d1 d2 s player = handleLanding deck ci st pid (d1 = d2)
           \<and> tiles st = tiles s
           \<and> players st = (players s)
                [i := player\<lparr>money := money player + bonus, position := newPos,
                            consecutiveDoubles := nextCount\<rparr>]
           \<and> (\<forall>s' tile. handleLanding deck ci st pid (d1 = d2) = Inr s'
                  \<and> tileAt (tiles s) newPos = Some tile \<and> quietTile tile
                \<longrightarrow> (\<exists>q. findPlayer pid (players s') = Some q \<and> position q = newPos
                         \<and> \<not> isInJail q \<and> consecutiveDoubles q = nextCount))"
    if n3: "nextCount \<noteq> 3"
  proof -
    let ?q = "player\<lparr>consecutiveDoubles := nextCount\<rparr>"
    let ?s0 = "pushLog MsgRolled info ?ns"
    let ?q2 = "player\<lparr>money := money player + bonus, position := newPos,
                       consecutiveDoubles := nextCount\<rparr>"
    have pr: "processRoll deck ci d1 d2 s player =
            movePlayer deck ci (?s0\<lparr>players := (players s)[i := ?q]\<rparr>) (d1 + d2) pid (d1 = d2)"
      using n3 free idx id pl [symmetric]
      by (simp add: processRoll_def Let_def updatePlayer_def nx [symmetric])
    have idx0: "findPlayerIndex pid (players ?s0) = Some i" using idx by (simp add: pushLog_def)
    have idq: "id_p ?q = pid" using id by simp
    have posq: "0 \<le> position ?q" "position ?q < 40" using pos by simp_all
    from move_after_update [OF idx0 idq posq steps, of deck ci "d1 = d2"] obtain st where
      st: "movePlayer deck ci (?s0\<lparr>players := (players ?s0)[i := ?q]\<rparr>) (d1 + d2) pid (d1 = d2)
             = handleLanding deck ci st pid (d1 = d2)"
          "tiles st = tiles ?s0"
          "players st = (players ?s0)
             [i := ?q\<lparr>money := money ?q + (if 40 \<le> position ?q + (d1 + d2) then 200 else 0),
                      position := (position ?q + (d1 + d2)) mod 40\<rparr>]"
      by blast
    have eq: "?q\<lparr>money := money ?q + (if 40 \<le> position ?q + (d1 + d2) then 200 else 0),
                      position := (position ?q + (d1 + d2)) mod 40\<rparr> = ?q2"
      using np bn by (cases player) simp
    have pst: "players st = (players s)[i := ?q2]"
      using st(3) unfolding eq by (simp add: pushLog_def)
    have tst: "tiles st = tiles s" using st(2) by (simp add: pushLog_def)
    have run: "processRoll deck ci d1 d2 s player = handleLanding deck ci st pid (d1 = d2)"
      using pr st(1) by (simp add: pushLog_def)
    have fin: "\<forall>s' tile. handleLanding deck ci st pid (d1 = d2) = Inr s'
                  \<and> tileAt (tiles s) newPos = Some tile \<and> quietTile tile
                \<longrightarrow> (\<exists>q. findPlayer pid (players s') = Some q \<and> position q = newPos
                         \<and> \<not> isInJail q \<and> consecutiveDoubles q = nextCount)"
    proof (intro allI impI)
      fix s' tile
      assume a: "handleLanding deck ci st pid (d1 = d2) = Inr s'
                  \<and> tileAt (tiles s) newPos = Some tile \<and> quietTile tile"
      have idq2: "id_p ?q2 = pid" using id by simp
      have "tileAt (tiles st) (position ?q2) = Some tile" using a tst by simp
      moreover from a have "handleLanding deck ci st pid (d1 = d2) = Inr s'" "quietTile tile"
        by simp_all
      ultimately obtain q' where "findPlayer pid (players s') = Some q'"
        "position q' = position ?q2" "isInJail q' = isInJail ?q2"
        "consecutiveDoubles q' = consecutiveDoubles ?q2"
        using landing_quiet_after_move [OF _ idx pst idq2] by blast
      with free
      show "\<exists>q. findPlayer pid (players s') = Some q \<and> position q = newPos
                         \<and> \<not> isInJail q \<and> consecutiveDoubles q = nextCount"
        by simp
    qed
    from run tst pst fin show ?thesis by (intro exI [of _ st] conjI)
  qed
  from iff speeding moving show ?thesis by blast
qed

theorem free_roll_witness:
  "processRoll [] 0 3 3 exSpeeding (players exSpeeding ! 0) =
     Inr ((pushLog MsgSpeeding danger exSpeeding)
            \<lparr>dice := (3, 3), waitingForDoublesTurn := False,
             players := (players exSpeeding)
               [0 := (players exSpeeding ! 0)
                  \<lparr>position := 10, isInJail := True, jailTurns := 0, consecutiveDoubles := 0\<rparr>],
             phase := END_TURN\<rparr>)
   \<and> (\<exists>s'. processRoll [] 0 2 3 exSpeeding (players exSpeeding ! 0) = Inr s'
      \<and> (\<exists>q. findPlayer ''a'' (players s') = Some q \<and> position q = 12
              \<and> \<not> isInJail q \<and> consecutiveDoubles q = 0))"
proof -
  let ?p = "players exSpeeding ! 0"
  have idx: "findPlayerIndex ''a'' (players exSpeeding) = Some 0" by code_simp
  have free: "\<not> isInJail ?p" by code_simp
  have pos: "0 \<le> position ?p" "position ?p < 40" by code_simp+
  have d33: "(1::int) \<le> 3" "(3::int) \<le> 6" "(1::int) \<le> 3" "(3::int) \<le> 6" by simp_all
  have d23: "(1::int) \<le> 2" "(2::int) \<le> 6" "(1::int) \<le> 3" "(3::int) \<le> 6" by simp_all
  have np33: "(13::int) = (position ?p + (3 + 3)) mod 40" by code_simp
  have bn33: "(0::int) = (if 40 \<le> position ?p + (3 + 3) then 200 else 0)" by code_simp
  have nx33: "(3::int) = (if (3::int) = 3 then consecutiveDoubles ?p + 1 else 0)" by code_simp
  have np23: "(12::int) = (position ?p + (2 + 3)) mod 40" by code_simp
  have bn23: "(0::int) = (if 40 \<le> position ?p + (2 + 3) then 200 else 0)" by code_simp
  have nx23: "(0::int) = (if (2::int) = 3 then consecutiveDoubles ?p + 1 else 0)" by code_simp
  from free_roll [OF idx refl free pos d33 np33 bn33 nx33, of "[]" 0]
  have speeding: "processRoll [] 0 3 3 exSpeeding ?p =
     Inr ((pushLog MsgSpeeding danger exSpeeding)
            \<lparr>dice := (3, 3), waitingForDoublesTurn := False,
             players := (players exSpeeding)
               [0 := ?p\<lparr>position := 10, isInJail := True, jailTurns := 0, consecutiveDoubles := 0\<rparr>],
             phase := END_TURN\<rparr>)"
    by blast
  have tile: "tileAt (tiles exSpeeding) 12 = Some (plainTile 12 PARKING)
              \<and> quietTile (plainTile 12 PARKING)" by code_simp
  have ret: "(case processRoll [] 0 2 3 exSpeeding ?p of Inl e \<Rightarrow> False | Inr s' \<Rightarrow> True)"
    by code_simp
  then obtain s' where s': "processRoll [] 0 2 3 exSpeeding ?p = Inr s'"
    by (cases "processRoll [] 0 2 3 exSpeeding ?p") auto
  have "(0::int) \<noteq> 3" by simp
  with free_roll [OF idx refl free pos d23 np23 bn23 nx23, of "[]" 0]
  obtain st where st: "processRoll [] 0 2 3 exSpeeding ?p = handleLanding [] 0 st ''a'' ((2::int) = 3)"
     "\<forall>s' tile. handleLanding [] 0 st ''a'' ((2::int) = 3) = Inr s'
                  \<and> tileAt (tiles exSpeeding) 12 = Some tile \<and> quietTile tile
                \<longrightarrow> (\<exists>q. findPlayer ''a'' (players s') = Some q \<and> position q = 12
                         \<and> \<not> isInJail q \<and> consecutiveDoubles q = 0)"
    by blast
  from st(1) s' have "handleLanding [] 0 st ''a'' ((2::int) = 3) = Inr s'" by simp
  with st(2) tile have "\<exists>q. findPlayer ''a'' (players s') = Some q \<and> position q = 12
                         \<and> \<not> isInJail q \<and> consecutiveDoubles q = 0"
    by blast
  with s' speeding show ?thesis by blast
qed

subsection \<open>The processors do not read the phase\<close>

lemma pushLog_phase: "pushLog m t (s\<lparr>phase := ph\<rparr>) = (pushLog m t s)\<lparr>phase := ph\<rparr>"
  by (simp add: pushLog_def)

lemma payRent_phase: "payRent (st\<lparr>phase := ph\<rparr>) pid owner r dbl = payRent st pid owner r dbl"
  by (simp add: payRent_def pushLog_def Let_def split: sum.splits option.splits)

lemma applyChanceEffect_phase:
  "applyChanceEffect (st\<lparr>phase := ph\<rparr>) pid c dbl = applyChanceEffect st pid c dbl"
  by (simp add: applyChanceEffect_def pushLog_def Let_def split: sum.splits)

lemma rentDue_phase: "rentDue (st\<lparr>phase := ph\<rparr>) tile owner = rentDue st tile owner"
  by (simp add: rentDue_def rentBonus_def cong: sum.case_cong)

lemma rentLogs_phase:
  "rentLogs (st\<lparr>phase := ph\<rparr>) tile owner (st\<lparr>phase := ph\<rparr>) = (rentLogs st tile owner st)\<lparr>phase := ph\<rparr>"
  by (simp add: rentLogs_def rentBonus_def pushLog_def)

lemma landOnOwnable_phase:
  "landOnOwnable (st\<lparr>phase := ph\<rparr>) pid tile dbl = landOnOwnable st pid tile dbl"
  by (auto simp: landOnOwnable_def rentDue_phase rentLogs_phase payRent_phase landingDefault_def
           split: option.splits sum.splits)

lemma handleLanding_phase:
  assumes "findPlayer pid (players s) = Some p"
  shows "handleLanding deck ci (s\<lparr>phase := ph\<rparr>) pid dbl = handleLanding deck ci s pid dbl"
proof (cases "tileAt (tiles s) (position p)")
  case None
  with assms show ?thesis by (simp add: handleLanding_def)
next
  case (Some tile)
  with assms show ?thesis
    by (simp add: handleLanding_def Let_def pushLog_phase landOnOwnable_phase
                  applyChanceEffect_phase landingDefault_def
             split: sum.splits option.splits)
qed

lemma movePlayer_phase:
  assumes "findPlayerIndex pid (players s) = Some i"
  shows "movePlayer deck ci (s\<lparr>phase := ph\<rparr>) steps pid dbl = movePlayer deck ci s steps pid dbl"
proof -
  let ?q = "moved steps (players s ! i)"
  from findPlayerIndex_Some [OF assms] have "id_p (players s ! i) = pid" by simp
  then have "id_p ?q = pid" by (simp add: moved_def Let_def)
  from findPlayerIndex_update [OF assms this]
  have "findPlayerIndex pid ((players s)[i := ?q]) = Some i" .
  from findPlayerIndex_Some [OF this]
  have f: "findPlayer pid ((players s)[i := ?q]) = Some (((players s)[i := ?q]) ! i)" by simp
  have a: "handleLanding deck ci (st\<lparr>phase := ph\<rparr>) pid dbl = handleLanding deck ci st pid dbl"
    if "players st = (players s)[i := ?q]" for st
    using handleLanding_phase [of pid st] f that by simp
  show ?thesis
  proof (cases "passesStart steps (players s ! i)")
    case True
    let ?st = "(pushLog MsgPassStart success s)\<lparr>players := (players s)[i := ?q]\<rparr>"
    have eq: "(pushLog MsgPassStart success (s\<lparr>phase := ph\<rparr>))
                 \<lparr>players := (players s)[i := ?q]\<rparr> = ?st\<lparr>phase := ph\<rparr>"
      by (cases s) (simp add: pushLog_def)
    have "movePlayer deck ci (s\<lparr>phase := ph\<rparr>) steps pid dbl
            = handleLanding deck ci (?st\<lparr>phase := ph\<rparr>) pid dbl"
      using assms True by (simp add: movePlayer_def Let_def eq)
    also have "\<dots> = handleLanding deck ci ?st pid dbl" by (rule a) simp
    also have "\<dots> = movePlayer deck ci s steps pid dbl"
      using assms True by (simp add: movePlayer_def Let_def)
    finally show ?thesis .
  next
    case False
    let ?st = "s\<lparr>players := (players s)[i := ?q]\<rparr>"
    have eq: "(s\<lparr>phase := ph\<rparr>)\<lparr>players := (players s)[i := ?q]\<rparr> = ?st\<lparr>phase := ph\<rparr>"
      by (cases s) simp
    have "movePlayer deck ci (s\<lparr>phase := ph\<rparr>) steps pid dbl
            = handleLanding deck ci (?st\<lparr>phase := ph\<rparr>) pid dbl"
      using assms False by (simp add: movePlayer_def Let_def eq)
    also have "\<dots> = handleLanding deck ci ?st pid dbl" by (rule a) simp
    also have "\<dots> = movePlayer deck ci s steps pid dbl"
      using assms False by (simp add: movePlayer_def Let_def)
    finally show ?thesis .
  qed
qed

lemma move_branch_phase:
  assumes idx: "findPlayerIndex pid (players s) = Some i" and id: "id_p q = pid"
  shows "movePlayer deck ci
           ((pushLog m t (s\<lparr>phase := ph, dice := dd, waitingForDoublesTurn := False\<rparr>))
              \<lparr>players := (players s)[i := q]\<rparr>) steps pid dbl
         = movePlayer deck ci
           ((pushLog m t (s\<lparr>dice := dd, waitingForDoublesTurn := False\<rparr>))
              \<lparr>players := (players s)[i := q]\<rparr>) steps pid dbl"
proof -
  let ?st = "(pushLog m t (s\<lparr>dice := dd, waitingForDoublesTurn := False\<rparr>))
               \<lparr>players := (players s)[i := q]\<rparr>"
  have eq: "(pushLog m t (s\<lparr>phase := ph, dice := dd, waitingForDoublesTurn := False\<rparr>))
              \<lparr>players := (players s)[i := q]\<rparr> = ?st\<lparr>phase := ph\<rparr>"
    by (cases s) (simp add: pushLog_def)
  have "findPlayerIndex pid (players ?st) = Some i"
    using findPlayerIndex_update [OF idx id] by (simp add: pushLog_def)
  from movePlayer_phase [OF this] show ?thesis unfolding eq .
qed

lemma stay_branch_phase:
  "(pushLog m t (s\<lparr>phase := ph, dice := dd, waitingForDoublesTurn := False\<rparr>))
      \<lparr>players := ps, phase := END_TURN\<rparr>
   = (pushLog m t (s\<lparr>dice := dd, waitingForDoublesTurn := False\<rparr>))
      \<lparr>players := ps, phase := END_TURN\<rparr>"
  by (cases s) (simp add: pushLog_def)

lemma processRoll_phase:
  assumes idx: "findPlayerIndex (id_p player) (players s) = Some i"
  shows "processRoll deck ci d1 d2 (s\<lparr>phase := ph\<rparr>) player = processRoll deck ci d1 d2 s player"
  using idx
  by (simp add: processRoll_def Let_def updatePlayer_def move_branch_phase [OF idx]
                stay_branch_phase findPlayerIndex_Some [OF idx] jailed_def)

text \<open>
  C10. For an intent of the player whose turn it is, the dispatcher runs the processor of
  the intent whatever the phase is, and no processor reads the phase. A buy intent in any
  phase buys the tile under the player when the tile has a price other than 0 that the
  player can afford. A roll intent returns in any phase what it returns in the state's
  own phase, and a state it returns (in phase \<open>GAME_OVER\<close> as in any other) has the
  new dice and a longer log. In any phase a pass intent logs the pass and sets the next
  phase; a bail intent takes 50 from a player who has them and frees the player, and
  only logs otherwise; an upgrade intent adds a building to the tile selected on the
  host when the player can afford it and the count is below 5; an end-of-turn intent
  ends the game with at most one player left and passes the turn otherwise; a surrender
  marks the player bankrupt, releases the player's tiles and does the same.
\<close>

theorem dispatcher_ignores_phase:
  assumes actor: "findPlayerIndex (playerId a) (players s) = Some i"
      and pl: "player = players s ! i"
      and cur: "currentPlayerIndex s < length (players s)"
      and turn: "id_p (players s ! currentPlayerIndex s) = playerId a"
  shows "executeGameLogic deck ci d1 d2 a (s\<lparr>phase := ph\<rparr>) =
           (case type_a a of
              ROLL \<Rightarrow> processRoll deck ci d1 d2 (s\<lparr>phase := ph\<rparr>) player
            | BUY \<Rightarrow> processBuy (s\<lparr>phase := ph\<rparr>) player
            | PASS \<Rightarrow> processPass (s\<lparr>phase := ph\<rparr>) player
            | PAY_BAIL \<Rightarrow> processPayBail (s\<lparr>phase := ph\<rparr>) player
            | UPGRADE \<Rightarrow> processUpgrade (s\<lparr>phase := ph\<rparr>) player
            | END_TURN_ACTION \<Rightarrow> processEndTurn (s\<lparr>phase := ph\<rparr>)
            | SURRENDER \<Rightarrow> processSurrender (s\<lparr>phase := ph\<rparr>) player)
       \<and> (type_a a = BUY \<longrightarrow>
            (\<forall>tile pr. tileAt (tiles s) (position player) = Some tile
                 \<and> price tile = Some pr \<and> pr \<noteq> 0 \<and> pr \<le> money player
               \<longrightarrow> executeGameLogic deck ci d1 d2 a (s\<lparr>phase := ph\<rparr>) =
                     Inr ((pushLog MsgBought success s)
                            \<lparr>players := (players s)
                                [i := player\<lparr>money := money player - pr,
                                            properties := properties player @ [id_t tile]\<rparr>],
                             tiles := (tiles s)
                                [nat (position player) := tile\<lparr>ownerId := Some (playerId a)\<rparr>],
                             phase := (if waitingForDoublesTurn s then ROLLING else END_TURN)\<rparr>)))
       \<and> (type_a a = ROLL \<longrightarrow>
            (\<forall>s'. executeGameLogic deck ci d1 d2 a (s\<lparr>phase := GAME_OVER\<rparr>) = Inr s'
               \<longrightarrow> dice s' = (d1, d2) \<and> length (logs s) < length (logs s')))
       \<and> (type_a a = ROLL \<longrightarrow>
            executeGameLogic deck ci d1 d2 a (s\<lparr>phase := ph\<rparr>) = executeGameLogic deck ci d1 d2 a s
            \<and> (\<forall>s'. executeGameLogic deck ci d1 d2 a (s\<lparr>phase := ph\<rparr>) = Inr s'
                  \<longrightarrow> dice s' = (d1, d2) \<and> length (logs s) < length (logs s')))
       \<and> (type_a a = PASS \<longrightarrow>
            executeGameLogic deck ci d1 d2 a (s\<lparr>phase := ph\<rparr>) =
              Inr ((pushLog MsgPass info s)
                     \<lparr>phase := (if waitingForDoublesTurn s then ROLLING else END_TURN)\<rparr>))
       \<and> (type_a a = PAY_BAIL \<longrightarrow>
            executeGameLogic deck ci d1 d2 a (s\<lparr>phase := ph\<rparr>) =
              (if money player < 50
               then Inr ((pushLog MsgBailNoFunds warning s)\<lparr>phase := ph\<rparr>)
               else Inr ((pushLog MsgBailPaid success s)
                           \<lparr>phase := ph,
                            players := (players s)
                              [i := player\<lparr>money := money player - 50, isInJail := False,
                                          jailTurns := 0, consecutiveDoubles := 0\<rparr>]\<rparr>)))
       \<and> (type_a a = UPGRADE \<longrightarrow>
            (\<forall>sel tIdx cost.
                selectedTileId s = Some sel
                \<and> findIndex (\<lambda>t. id_t t = sel) (tiles s) = Some tIdx
                \<and> houseCost (tiles s ! tIdx) = Some cost \<and> cost \<noteq> 0
                \<and> cost \<le> money player
                \<and> orElse (houseCount (tiles s ! tIdx)) 0 < 5
              \<longrightarrow> executeGameLogic deck ci d1 d2 a (s\<lparr>phase := ph\<rparr>) =
                    Inr ((pushLog MsgUpgraded success s)
                           \<lparr>phase := ph,
                            players := (players s)
                              [i := player\<lparr>money := money player - cost\<rparr>],
                            tiles := (tiles s)
                              [tIdx := (tiles s ! tIdx)
                                 \<lparr>houseCount :=
                                    Some (orElse (houseCount (tiles s ! tIdx)) 0 + 1)\<rparr>]\<rparr>)))
       \<and> (type_a a = END_TURN_ACTION \<longrightarrow>
            executeGameLogic deck ci d1 d2 a (s\<lparr>phase := ph\<rparr>) =
              (if length (activePlayers (players s)) \<le> 1
               then Inr (s\<lparr>winner := firstOrNull (activePlayers (players s)),
                          phase := GAME_OVER\<rparr>)
               else Inr (s\<lparr>currentPlayerIndex :=
                            skipBankrupt (players s)
                              ((currentPlayerIndex s + 1) mod length (players s)) 0,
                          phase := ROLLING, waitingForDoublesTurn := False\<rparr>)))
       \<and> (type_a a = SURRENDER \<longrightarrow>
            executeGameLogic deck ci d1 d2 a (s\<lparr>phase := ph\<rparr>) =
              (if length (activePlayers
                            ((players s)[i := player\<lparr>bankrupt := True, money := 0\<rparr>])) \<le> 1
               then Inr ((pushLog MsgSurrender danger s)
                           \<lparr>players := (players s)[i := player\<lparr>bankrupt := True, money := 0\<rparr>],
                            tiles := releaseTiles (playerId a) (tiles s),
                            winner := firstOrNull (activePlayers
                               ((players s)[i := player\<lparr>bankrupt := True, money := 0\<rparr>])),
                            phase := GAME_OVER\<rparr>)
               else Inr ((pushLog MsgSurrender danger s)
                           \<lparr>players := (players s)[i := player\<lparr>bankrupt := True, money := 0\<rparr>],
                            tiles := releaseTiles (playerId a) (tiles s),
                            currentPlayerIndex :=
                              skipBankrupt ((players s)[i := player\<lparr>bankrupt := True, money := 0\<rparr>])
                                ((currentPlayerIndex s + 1) mod length (players s)) 0,
                            phase := ROLLING, waitingForDoublesTurn := False\<rparr>)))"
proof -
  from findPlayerIndex_Some [OF actor] pl have
    p: "findPlayer (playerId a) (players s) = Some player" "id_p player = playerId a"
    by auto
  have disp: "executeGameLogic deck ci d1 d2 a (s\<lparr>phase := ph'\<rparr>) =
           (case type_a a of
              ROLL \<Rightarrow> processRoll deck ci d1 d2 (s\<lparr>phase := ph'\<rparr>) player
            | BUY \<Rightarrow> processBuy (s\<lparr>phase := ph'\<rparr>) player
            | PASS \<Rightarrow> processPass (s\<lparr>phase := ph'\<rparr>) player
            | PAY_BAIL \<Rightarrow> processPayBail (s\<lparr>phase := ph'\<rparr>) player
            | UPGRADE \<Rightarrow> processUpgrade (s\<lparr>phase := ph'\<rparr>) player
            | END_TURN_ACTION \<Rightarrow> processEndTurn (s\<lparr>phase := ph'\<rparr>)
            | SURRENDER \<Rightarrow> processSurrender (s\<lparr>phase := ph'\<rparr>) player)" for ph'
    using p cur turn by (simp add: executeGameLogic_def isTurnOf_def)
  have buy: "executeGameLogic deck ci d1 d2 a (s\<lparr>phase := ph\<rparr>) =
                     Inr ((pushLog MsgBought success s)
                            \<lparr>players := (players s)
                                [i := player\<lparr>money := money player - pr,
                                            properties := properties player @ [id_t tile]\<rparr>],
                             tiles := (tiles s)
                                [nat (position player) := tile\<lparr>ownerId := Some (playerId a)\<rparr>],
                             phase := (if waitingForDoublesTurn s then ROLLING else END_TURN)\<rparr>)"
    if "type_a a = BUY" "tileAt (tiles s) (position player) = Some tile"
       "price tile = Some pr" "pr \<noteq> 0" "pr \<le> money player" for tile pr
    using that disp [of ph] actor p(2) pl [symmetric]
    by (simp add: processBuy_def truthyNum_def orElse_def updatePlayer_def Let_def pushLog_def)
  have roll: "dice s' = (d1, d2) \<and> length (logs s) < length (logs s')"
    if "type_a a = ROLL" "executeGameLogic deck ci d1 d2 a (s\<lparr>phase := GAME_OVER\<rparr>) = Inr s'" for s'
  proof -
    from that disp [of GAME_OVER]
    have "processRoll deck ci d1 d2 (s\<lparr>phase := GAME_OVER\<rparr>) player = Inr s'" by simp
    from processRoll_rest [OF this] show ?thesis by simp
  qed
  from findPlayerIndex_Some [OF actor] have il: "i < length (players s)" by simp
  have actor': "findPlayerIndex (id_p player) (players s) = Some i" using actor p(2) by simp
  have rollsame: "executeGameLogic deck ci d1 d2 a (s\<lparr>phase := ph\<rparr>)
                    = executeGameLogic deck ci d1 d2 a s"
    if "type_a a = ROLL"
  proof -
    have "s\<lparr>phase := phase s\<rparr> = s" by simp
    with disp [of "phase s"] that
    have "executeGameLogic deck ci d1 d2 a s = processRoll deck ci d1 d2 s player" by simp
    with disp [of ph] that processRoll_phase [OF actor', of deck ci d1 d2 ph] show ?thesis by simp
  qed
  have rollany: "dice s' = (d1, d2) \<and> length (logs s) < length (logs s')"
    if "type_a a = ROLL" "executeGameLogic deck ci d1 d2 a (s\<lparr>phase := ph\<rparr>) = Inr s'" for s'
  proof -
    from that disp [of ph]
    have "processRoll deck ci d1 d2 (s\<lparr>phase := ph\<rparr>) player = Inr s'" by simp
    from processRoll_rest [OF this] show ?thesis by simp
  qed
  have pass: "executeGameLogic deck ci d1 d2 a (s\<lparr>phase := ph\<rparr>) =
              Inr ((pushLog MsgPass info s)
                     \<lparr>phase := (if waitingForDoublesTurn s then ROLLING else END_TURN)\<rparr>)"
    if "type_a a = PASS"
    using that disp [of ph] by (cases s) (simp add: processPass_def pushLog_def)
  have bail: "executeGameLogic deck ci d1 d2 a (s\<lparr>phase := ph\<rparr>) =
              (if money player < 50
               then Inr ((pushLog MsgBailNoFunds warning s)\<lparr>phase := ph\<rparr>)
               else Inr ((pushLog MsgBailPaid success s)
                           \<lparr>phase := ph,
                            players := (players s)
                              [i := player\<lparr>money := money player - 50, isInJail := False,
                                          jailTurns := 0, consecutiveDoubles := 0\<rparr>]\<rparr>))"
    if "type_a a = PAY_BAIL"
  proof -
    have u: "updatePlayer (id_p player)
               (\<lambda>p. p\<lparr>money := money p - 50, isInJail := False, jailTurns := 0,
                       consecutiveDoubles := 0\<rparr>) (players s)
             = Inr ((players s)
                      [i := player\<lparr>money := money player - 50, isInJail := False,
                                  jailTurns := 0, consecutiveDoubles := 0\<rparr>])"
      using actor' pl by (simp add: updatePlayer_def)
    have e1: "pushLog MsgBailNoFunds warning (s\<lparr>phase := ph\<rparr>)
                = (pushLog MsgBailNoFunds warning s)\<lparr>phase := ph\<rparr>"
      by (simp add: pushLog_def)
    have e2: "(pushLog MsgBailPaid success (s\<lparr>phase := ph\<rparr>))\<lparr>players := ps\<rparr>
                = (pushLog MsgBailPaid success s)\<lparr>phase := ph, players := ps\<rparr>" for ps
      by (cases s) (simp add: pushLog_def)
    from that disp [of ph] u show ?thesis
      by (simp add: processPayBail_def e1 e2)
  qed
  have upgrade: "executeGameLogic deck ci d1 d2 a (s\<lparr>phase := ph\<rparr>) =
                    Inr ((pushLog MsgUpgraded success s)
                           \<lparr>phase := ph,
                            players := (players s)
                              [i := player\<lparr>money := money player - cost\<rparr>],
                            tiles := (tiles s)
                              [tIdx := (tiles s ! tIdx)
                                 \<lparr>houseCount :=
                                    Some (orElse (houseCount (tiles s ! tIdx)) 0 + 1)\<rparr>]\<rparr>)"
    if "type_a a = UPGRADE" "selectedTileId s = Some sel"
       "findIndex (\<lambda>t. id_t t = sel) (tiles s) = Some tIdx"
       "houseCost (tiles s ! tIdx) = Some cost" "cost \<noteq> 0" "cost \<le> money player"
       "orElse (houseCount (tiles s ! tIdx)) 0 < 5" for sel tIdx cost
  proof -
    have e: "(pushLog MsgUpgraded success (s\<lparr>phase := ph\<rparr>))\<lparr>players := ps, tiles := ts\<rparr>
                = (pushLog MsgUpgraded success s)\<lparr>phase := ph, players := ps, tiles := ts\<rparr>"
      for ps ts
      by (cases s) (simp add: pushLog_def)
    from that disp [of ph] actor' pl [symmetric] show ?thesis
      by (simp add: processUpgrade_def Let_def updatePlayer_def e)
  qed
  have ne: "players s \<noteq> []" using il by auto
  have endturn: "processEndTurn (st\<lparr>phase := ph\<rparr>) =
              (if length (activePlayers (players st)) \<le> 1
               then Inr (st\<lparr>winner := firstOrNull (activePlayers (players st)),
                          phase := GAME_OVER\<rparr>)
               else Inr (st\<lparr>currentPlayerIndex :=
                            skipBankrupt (players st)
                              ((currentPlayerIndex st + 1) mod length (players st)) 0,
                          phase := ROLLING, waitingForDoublesTurn := False\<rparr>))"
    if "players st \<noteq> []" for st
    using that by (cases st) (simp add: processEndTurn_def Let_def)
  have fin: "executeGameLogic deck ci d1 d2 a (s\<lparr>phase := ph\<rparr>) =
              (if length (activePlayers (players s)) \<le> 1
               then Inr (s\<lparr>winner := firstOrNull (activePlayers (players s)),
                          phase := GAME_OVER\<rparr>)
               else Inr (s\<lparr>currentPlayerIndex :=
                            skipBankrupt (players s)
                              ((currentPlayerIndex s + 1) mod length (players s)) 0,
                          phase := ROLLING, waitingForDoublesTurn := False\<rparr>))"
    if "type_a a = END_TURN_ACTION"
    using that disp [of ph] endturn [OF ne] by simp
  let ?ps = "(players s)[i := player\<lparr>bankrupt := True, money := 0\<rparr>]"
  let ?next = "(pushLog MsgSurrender danger s)
                 \<lparr>players := ?ps, tiles := releaseTiles (playerId a) (tiles s)\<rparr>"
  have quit: "executeGameLogic deck ci d1 d2 a (s\<lparr>phase := ph\<rparr>) =
              (if length (activePlayers ?ps) \<le> 1
               then Inr ((pushLog MsgSurrender danger s)
                           \<lparr>players := ?ps,
                            tiles := releaseTiles (playerId a) (tiles s),
                            winner := firstOrNull (activePlayers ?ps),
                            phase := GAME_OVER\<rparr>)
               else Inr ((pushLog MsgSurrender danger s)
                           \<lparr>players := ?ps,
                            tiles := releaseTiles (playerId a) (tiles s),
                            currentPlayerIndex :=
                              skipBankrupt ?ps ((currentPlayerIndex s + 1) mod length (players s)) 0,
                            phase := ROLLING, waitingForDoublesTurn := False\<rparr>))"
    if "type_a a = SURRENDER"
  proof -
    have u: "updatePlayer (id_p player) (\<lambda>p. p\<lparr>bankrupt := True, money := 0\<rparr>) (players s)
               = Inr ?ps"
      using actor' pl by (simp add: updatePlayer_def)
    have e: "(pushLog MsgSurrender danger (s\<lparr>phase := ph\<rparr>))
               \<lparr>players := ?ps, tiles := releaseTiles (playerId a) (tiles s)\<rparr>
             = ?next\<lparr>phase := ph\<rparr>"
      by (cases s) (simp add: pushLog_def)
    have nn: "players ?next \<noteq> []" using ne by simp
    have "processSurrender (s\<lparr>phase := ph\<rparr>) player
            = processEndTurn ((pushLog MsgSurrender danger (s\<lparr>phase := ph\<rparr>))
                 \<lparr>players := ?ps, tiles := releaseTiles (playerId a) (tiles s)\<rparr>)"
    proof -
      have it: "isTurnOf (pushLog MsgSurrender danger (s\<lparr>phase := ph\<rparr>)) (id_p player) = Inr True"
        using cur turn p(2) by (simp add: isTurnOf_def pushLog_def)
      have pu: "players (pushLog MsgSurrender danger (s\<lparr>phase := ph\<rparr>)) = players s"
        and tl: "tiles (pushLog MsgSurrender danger (s\<lparr>phase := ph\<rparr>)) = tiles s"
        by (simp_all add: pushLog_def)
      show ?thesis by (simp add: processSurrender_def Let_def it pu tl u p(2) [symmetric])
    qed
    hence "processSurrender (s\<lparr>phase := ph\<rparr>) player = processEndTurn (?next\<lparr>phase := ph\<rparr>)"
      by (simp only: e)
    with that disp [of ph] endturn [OF nn] show ?thesis
      by (simp add: pushLog_def)
  qed
  from disp [of ph] buy roll rollsame rollany pass bail upgrade fin quit show ?thesis by blast
qed


theorem dispatcher_ignores_phase_witness:
  "(\<exists>s'. executeGameLogic [] 0 1 1 \<lparr>type_a = BUY, playerId = ''a''\<rparr> (exBuyState\<lparr>phase := ROLLING\<rparr>)
            = Inr s'
        \<and> ownerId (tiles s' ! 8) = Some ''a'' \<and> map money (players s') = [1400, 1500])
   \<and> (\<exists>s'. executeGameLogic [] 0 1 4 \<lparr>type_a = ROLL, playerId = ''a''\<rparr>
              (exBuyState\<lparr>phase := GAME_OVER\<rparr>) = Inr s'
        \<and> dice s' = (1, 4) \<and> length (logs exBuyState) < length (logs s'))
   \<and> executeGameLogic [] 0 1 4 \<lparr>type_a = ROLL, playerId = ''a''\<rparr> (exBuyState\<lparr>phase := MOVING\<rparr>)
       = executeGameLogic [] 0 1 4 \<lparr>type_a = ROLL, playerId = ''a''\<rparr> exBuyState
   \<and> (case executeGameLogic [] 0 1 1 \<lparr>type_a = PASS, playerId = ''a''\<rparr>
             (exBuyState\<lparr>phase := GAME_OVER\<rparr>) of
        Inl e \<Rightarrow> False
      | Inr s' \<Rightarrow> phase s' = END_TURN \<and> map message (logs s') = [MsgPass])
   \<and> (case executeGameLogic [] 0 1 1 \<lparr>type_a = PAY_BAIL, playerId = ''a''\<rparr>
             (exBuyState\<lparr>phase := GAME_OVER\<rparr>) of
        Inl e \<Rightarrow> False
      | Inr s' \<Rightarrow> phase s' = GAME_OVER \<and> map money (players s') = [1450, 1500])
   \<and> (case executeGameLogic [] 0 1 1 \<lparr>type_a = UPGRADE, playerId = ''a''\<rparr>
             (exBuyState\<lparr>selectedTileId := Some 6, phase := GAME_OVER\<rparr>) of
        Inl e \<Rightarrow> False
      | Inr s' \<Rightarrow> phase s' = GAME_OVER \<and> map money (players s') = [1450, 1500]
                   \<and> houseCount (tiles s' ! 6) = Some 1)
   \<and> (case executeGameLogic [] 0 1 1 \<lparr>type_a = END_TURN_ACTION, playerId = ''a''\<rparr>
             (exBuyState\<lparr>phase := MOVING\<rparr>) of
        Inl e \<Rightarrow> False
      | Inr s' \<Rightarrow> phase s' = ROLLING \<and> currentPlayerIndex s' = 1)
   \<and> (case executeGameLogic [] 0 1 1 \<lparr>type_a = SURRENDER, playerId = ''a''\<rparr>
             (exBuyState\<lparr>phase := MOVING\<rparr>) of
        Inl e \<Rightarrow> False
      | Inr s' \<Rightarrow> phase s' = GAME_OVER \<and> map bankrupt (players s') = [True, False]
                   \<and> map_option id_p (winner s') = Some ''b'')"
proof -
  let ?buy = "\<lparr>type_a = BUY, playerId = ''a''\<rparr>"
  let ?roll = "\<lparr>type_a = ROLL, playerId = ''a''\<rparr>"
  let ?pass = "\<lparr>type_a = PASS, playerId = ''a''\<rparr>"
  let ?bail = "\<lparr>type_a = PAY_BAIL, playerId = ''a''\<rparr>"
  let ?upg = "\<lparr>type_a = UPGRADE, playerId = ''a''\<rparr>"
  let ?fin = "\<lparr>type_a = END_TURN_ACTION, playerId = ''a''\<rparr>"
  let ?quit = "\<lparr>type_a = SURRENDER, playerId = ''a''\<rparr>"
  let ?sel = "exBuyState\<lparr>selectedTileId := Some 6\<rparr>"
  let ?p = "players exBuyState ! 0"
  let ?t = "street 8 LIGHT_BLUE 100 [6, 30, 90, 270, 400, 550] None"
  have ab: "findPlayerIndex (playerId \<lparr>type_a = ty, playerId = ''a''\<rparr>) (players exBuyState) = Some 0"
    for ty
    by (simp add: exBuyState_def exState_def exPlayer_def findPlayerIndex_def)
  have cur: "currentPlayerIndex exBuyState < length (players exBuyState)" by code_simp
  have tb: "id_p (players exBuyState ! currentPlayerIndex exBuyState)
              = playerId \<lparr>type_a = ty, playerId = ''a''\<rparr>" for ty
    by (simp add: exBuyState_def exState_def exPlayer_def)
  have c: "tileAt (tiles exBuyState) (position ?p) = Some ?t \<and> price ?t = Some 100
           \<and> (100::int) \<noteq> 0 \<and> 100 \<le> money ?p" by code_simp
  have isb: "type_a ?buy = BUY" by simp
  from dispatcher_ignores_phase [of ?buy, OF ab refl cur tb, of "[]" 0 1 1 ROLLING] isb c
  have b: "executeGameLogic [] 0 1 1 ?buy (exBuyState\<lparr>phase := ROLLING\<rparr>) =
             Inr ((pushLog MsgBought success exBuyState)
                    \<lparr>players := (players exBuyState)
                        [0 := ?p\<lparr>money := money ?p - 100, properties := properties ?p @ [id_t ?t]\<rparr>],
                     tiles := (tiles exBuyState)
                        [nat (position ?p) := ?t\<lparr>ownerId := Some (playerId ?buy)\<rparr>],
                     phase := (if waitingForDoublesTurn exBuyState then ROLLING else END_TURN)\<rparr>)"
    by blast
  have ev: "ownerId ((tiles exBuyState)[nat (position ?p) := ?t\<lparr>ownerId := Some (playerId ?buy)\<rparr>] ! 8)
              = Some ''a''
            \<and> map money ((players exBuyState)
                  [0 := ?p\<lparr>money := money ?p - 100, properties := properties ?p @ [id_t ?t]\<rparr>])
              = [1400, 1500]"
    by code_simp
  have ret: "(case executeGameLogic [] 0 1 4 ?roll (exBuyState\<lparr>phase := GAME_OVER\<rparr>) of
                Inl e \<Rightarrow> False | Inr s' \<Rightarrow> True)"
    by code_simp
  then obtain s' where
    s': "executeGameLogic [] 0 1 4 ?roll (exBuyState\<lparr>phase := GAME_OVER\<rparr>) = Inr s'"
    by (cases "executeGameLogic [] 0 1 4 ?roll (exBuyState\<lparr>phase := GAME_OVER\<rparr>)") auto
  have isr: "type_a ?roll = ROLL" by simp
  from dispatcher_ignores_phase [of ?roll, OF ab refl cur tb, of "[]" 0 1 4 ROLLING] isr s'
  have r1: "dice s' = (1, 4) \<and> length (logs exBuyState) < length (logs s')" by blast
  from dispatcher_ignores_phase [of ?roll, OF ab refl cur tb, of "[]" 0 1 4 MOVING] isr
  have r2: "executeGameLogic [] 0 1 4 ?roll (exBuyState\<lparr>phase := MOVING\<rparr>)
              = executeGameLogic [] 0 1 4 ?roll exBuyState"
    by blast
  have c1: "\<exists>s'. executeGameLogic [] 0 1 1 ?buy (exBuyState\<lparr>phase := ROLLING\<rparr>) = Inr s'
               \<and> ownerId (tiles s' ! 8) = Some ''a'' \<and> map money (players s') = [1400, 1500]"
    using b ev by (simp add: pushLog_def)
  have c2: "\<exists>s'. executeGameLogic [] 0 1 4 ?roll (exBuyState\<lparr>phase := GAME_OVER\<rparr>) = Inr s'
               \<and> dice s' = (1, 4) \<and> length (logs exBuyState) < length (logs s')"
    using s' r1 by simp
  have isp: "type_a ?pass = PASS" by simp
  from dispatcher_ignores_phase [of ?pass, OF ab refl cur tb, of "[]" 0 1 1 GAME_OVER] isp
  have p1: "executeGameLogic [] 0 1 1 ?pass (exBuyState\<lparr>phase := GAME_OVER\<rparr>) =
              Inr ((pushLog MsgPass info exBuyState)
                     \<lparr>phase := (if waitingForDoublesTurn exBuyState then ROLLING else END_TURN)\<rparr>)"
    by blast
  have p2: "(case Inr ((pushLog MsgPass info exBuyState)
                     \<lparr>phase := (if waitingForDoublesTurn exBuyState then ROLLING else END_TURN)\<rparr>)
                  :: error + GameState of
               Inl e \<Rightarrow> False
             | Inr s' \<Rightarrow> phase s' = END_TURN \<and> map message (logs s') = [MsgPass])"
    by code_simp
  have c3: "(case executeGameLogic [] 0 1 1 ?pass (exBuyState\<lparr>phase := GAME_OVER\<rparr>) of
               Inl e \<Rightarrow> False
             | Inr s' \<Rightarrow> phase s' = END_TURN \<and> map message (logs s') = [MsgPass])"
    by (simp only: p1) (rule p2)
  have isl: "type_a ?bail = PAY_BAIL" by simp
  from dispatcher_ignores_phase [of ?bail, OF ab refl cur tb, of "[]" 0 1 1 GAME_OVER] isl
  have l1: "executeGameLogic [] 0 1 1 ?bail (exBuyState\<lparr>phase := GAME_OVER\<rparr>) =
              (if money ?p < 50
               then Inr ((pushLog MsgBailNoFunds warning exBuyState)\<lparr>phase := GAME_OVER\<rparr>)
               else Inr ((pushLog MsgBailPaid success exBuyState)
                           \<lparr>phase := GAME_OVER,
                            players := (players exBuyState)
                              [0 := ?p\<lparr>money := money ?p - 50, isInJail := False,
                                      jailTurns := 0, consecutiveDoubles := 0\<rparr>]\<rparr>))"
    by blast
  have l2: "(case (if money ?p < 50
               then Inr ((pushLog MsgBailNoFunds warning exBuyState)\<lparr>phase := GAME_OVER\<rparr>)
               else Inr ((pushLog MsgBailPaid success exBuyState)
                           \<lparr>phase := GAME_OVER,
                            players := (players exBuyState)
                              [0 := ?p\<lparr>money := money ?p - 50, isInJail := False,
                                      jailTurns := 0, consecutiveDoubles := 0\<rparr>]\<rparr>))
                  :: error + GameState of
               Inl e \<Rightarrow> False
             | Inr s' \<Rightarrow> phase s' = GAME_OVER \<and> map money (players s') = [1450, 1500])"
    by code_simp
  have c4: "(case executeGameLogic [] 0 1 1 ?bail (exBuyState\<lparr>phase := GAME_OVER\<rparr>) of
               Inl e \<Rightarrow> False
             | Inr s' \<Rightarrow> phase s' = GAME_OVER \<and> map money (players s') = [1450, 1500])"
    by (simp only: l1) (rule l2)
  have au: "findPlayerIndex (playerId ?upg) (players ?sel) = Some 0" by code_simp
  have cu: "currentPlayerIndex ?sel < length (players ?sel)" by code_simp
  have tu: "id_p (players ?sel ! currentPlayerIndex ?sel) = playerId ?upg" by code_simp
  have isu: "type_a ?upg = UPGRADE" by simp
  have uc: "selectedTileId ?sel = Some 6
            \<and> findIndex (\<lambda>t. id_t t = 6) (tiles ?sel) = Some 6
            \<and> houseCost (tiles ?sel ! 6) = Some 50 \<and> (50::int) \<noteq> 0
            \<and> 50 \<le> money (players ?sel ! 0)
            \<and> orElse (houseCount (tiles ?sel ! 6)) 0 < 5"
    by code_simp
  from dispatcher_ignores_phase [of ?upg ?sel, OF au refl cu tu, of "[]" 0 1 1 GAME_OVER] isu uc
  have u1: "executeGameLogic [] 0 1 1 ?upg (?sel\<lparr>phase := GAME_OVER\<rparr>) =
              Inr ((pushLog MsgUpgraded success ?sel)
                     \<lparr>phase := GAME_OVER,
                      players := (players ?sel)
                        [0 := (players ?sel ! 0)\<lparr>money := money (players ?sel ! 0) - 50\<rparr>],
                      tiles := (tiles ?sel)
                        [6 := (tiles ?sel ! 6)
                           \<lparr>houseCount := Some (orElse (houseCount (tiles ?sel ! 6)) 0 + 1)\<rparr>]\<rparr>)"
    by blast
  have u2: "(case Inr ((pushLog MsgUpgraded success ?sel)
                     \<lparr>phase := GAME_OVER,
                      players := (players ?sel)
                        [0 := (players ?sel ! 0)\<lparr>money := money (players ?sel ! 0) - 50\<rparr>],
                      tiles := (tiles ?sel)
                        [6 := (tiles ?sel ! 6)
                           \<lparr>houseCount := Some (orElse (houseCount (tiles ?sel ! 6)) 0 + 1)\<rparr>]\<rparr>)
                  :: error + GameState of
               Inl e \<Rightarrow> False
             | Inr s' \<Rightarrow> phase s' = GAME_OVER \<and> map money (players s') = [1450, 1500]
                          \<and> houseCount (tiles s' ! 6) = Some 1)"
    by code_simp
  have c5: "(case executeGameLogic [] 0 1 1 ?upg (exBuyState\<lparr>selectedTileId := Some 6, phase := GAME_OVER\<rparr>) of
               Inl e \<Rightarrow> False
             | Inr s' \<Rightarrow> phase s' = GAME_OVER \<and> map money (players s') = [1450, 1500]
                          \<and> houseCount (tiles s' ! 6) = Some 1)"
    using u1 u2 by simp
  have isf: "type_a ?fin = END_TURN_ACTION" by simp
  from dispatcher_ignores_phase [of ?fin, OF ab refl cur tb, of "[]" 0 1 1 MOVING] isf
  have f1: "executeGameLogic [] 0 1 1 ?fin (exBuyState\<lparr>phase := MOVING\<rparr>) =
              (if length (activePlayers (players exBuyState)) \<le> 1
               then Inr (exBuyState\<lparr>winner := firstOrNull (activePlayers (players exBuyState)),
                          phase := GAME_OVER\<rparr>)
               else Inr (exBuyState\<lparr>currentPlayerIndex :=
                            skipBankrupt (players exBuyState)
                              ((currentPlayerIndex exBuyState + 1) mod length (players exBuyState)) 0,
                          phase := ROLLING, waitingForDoublesTurn := False\<rparr>))"
    by blast
  have f2: "(case (if length (activePlayers (players exBuyState)) \<le> 1
               then Inr (exBuyState\<lparr>winner := firstOrNull (activePlayers (players exBuyState)),
                          phase := GAME_OVER\<rparr>)
               else Inr (exBuyState\<lparr>currentPlayerIndex :=
                            skipBankrupt (players exBuyState)
                              ((currentPlayerIndex exBuyState + 1) mod length (players exBuyState)) 0,
                          phase := ROLLING, waitingForDoublesTurn := False\<rparr>))
                  :: error + GameState of
               Inl e \<Rightarrow> False
             | Inr s' \<Rightarrow> phase s' = ROLLING \<and> currentPlayerIndex s' = 1)"
    by code_simp
  have c6: "(case executeGameLogic [] 0 1 1 ?fin (exBuyState\<lparr>phase := MOVING\<rparr>) of
               Inl e \<Rightarrow> False
             | Inr s' \<Rightarrow> phase s' = ROLLING \<and> currentPlayerIndex s' = 1)"
    by (simp only: f1) (rule f2)
  let ?ps = "(players exBuyState)[0 := ?p\<lparr>bankrupt := True, money := 0\<rparr>]"
  have isq: "type_a ?quit = SURRENDER" by simp
  from dispatcher_ignores_phase [of ?quit, OF ab refl cur tb, of "[]" 0 1 1 MOVING] isq
  have q1: "executeGameLogic [] 0 1 1 ?quit (exBuyState\<lparr>phase := MOVING\<rparr>) =
              (if length (activePlayers ?ps) \<le> 1
               then Inr ((pushLog MsgSurrender danger exBuyState)
                           \<lparr>players := ?ps,
                            tiles := releaseTiles (playerId ?quit) (tiles exBuyState),
                            winner := firstOrNull (activePlayers ?ps),
                            phase := GAME_OVER\<rparr>)
               else Inr ((pushLog MsgSurrender danger exBuyState)
                           \<lparr>players := ?ps,
                            tiles := releaseTiles (playerId ?quit) (tiles exBuyState),
                            currentPlayerIndex :=
                              skipBankrupt ?ps
                                ((currentPlayerIndex exBuyState + 1) mod length (players exBuyState)) 0,
                            phase := ROLLING, waitingForDoublesTurn := False\<rparr>))"
    by blast
  have q2: "(case (if length (activePlayers ?ps) \<le> 1
               then Inr ((pushLog MsgSurrender danger exBuyState)
                           \<lparr>players := ?ps,
                            tiles := releaseTiles (playerId ?quit) (tiles exBuyState),
                            winner := firstOrNull (activePlayers ?ps),
                            phase := GAME_OVER\<rparr>)
               else Inr ((pushLog MsgSurrender danger exBuyState)
                           \<lparr>players := ?ps,
                            tiles := releaseTiles (playerId ?quit) (tiles exBuyState),
                            currentPlayerIndex :=
                              skipBankrupt ?ps
                                ((currentPlayerIndex exBuyState + 1) mod length (players exBuyState)) 0,
                            phase := ROLLING, waitingForDoublesTurn := False\<rparr>))
                  :: error + GameState of
               Inl e \<Rightarrow> False
             | Inr s' \<Rightarrow> phase s' = GAME_OVER \<and> map bankrupt (players s') = [True, False]
                          \<and> map_option id_p (winner s') = Some ''b'')"
    by code_simp
  have c7: "(case executeGameLogic [] 0 1 1 ?quit (exBuyState\<lparr>phase := MOVING\<rparr>) of
               Inl e \<Rightarrow> False
             | Inr s' \<Rightarrow> phase s' = GAME_OVER \<and> map bankrupt (players s') = [True, False]
                          \<and> map_option id_p (winner s') = Some ''b'')"
    by (simp only: q1) (rule q2)
  show ?thesis
    apply (intro conjI)
           apply (rule c1)
          apply (rule c2)
         apply (rule r2)
        apply (rule c3)
       apply (rule c4)
      apply (rule c5)
     apply (rule c6)
    apply (rule c7)
    done
qed

section \<open>Ownership of tiles\<close>
















end
